theory Spec2Isabelle
  imports Main "HOL-Library.Finite_Map"
begin

section \<open>Strings and paths\<close>

text \<open>
  Python strings are modelled as HOL strings: the list of the bytes of their UTF-8
  encoding. \<open>str.lower\<close> is modelled on the ASCII range: the supported extensions
  are pure ASCII, no character outside ASCII lower-cases into one of them, and the
  suffix of a listed file, lower-casing into a supported extension, is pure ASCII.
\<close>

definition lower_char :: "char \<Rightarrow> char" where
  "lower_char c =
     (case map_of (zip ''ABCDEFGHIJKLMNOPQRSTUVWXYZ'' ''abcdefghijklmnopqrstuvwxyz'') c of
        Some d \<Rightarrow> d
      | None \<Rightarrow> c)"

definition lower :: "string \<Rightarrow> string" where
  "lower s = map lower_char s"

text \<open>
  \<open>str.strip\<close> removes the white space of Unicode from both ends. These are the 29
  characters for which \<open>str.isspace\<close> holds, each given by its UTF-8 encoding:
  U+0009 to U+000D, U+001C to U+001F, U+0020, U+0085, U+00A0, U+1680, U+2000 to
  U+200A, U+2028, U+2029, U+202F, U+205F and U+3000. In a UTF-8 string such an
  encoding at either end is that character and nothing else.
\<close>

definition whitespace :: "string list" where
  "whitespace =
     [[CHR 0x09], [CHR 0x0A], [CHR 0x0B], [CHR 0x0C], [CHR 0x0D],
      [CHR 0x1C], [CHR 0x1D], [CHR 0x1E], [CHR 0x1F], [CHR 0x20],
      [CHR 0xC2, CHR 0x85], [CHR 0xC2, CHR 0xA0],
      [CHR 0xE1, CHR 0x9A, CHR 0x80],
      [CHR 0xE2, CHR 0x80, CHR 0x80], [CHR 0xE2, CHR 0x80, CHR 0x81],
      [CHR 0xE2, CHR 0x80, CHR 0x82], [CHR 0xE2, CHR 0x80, CHR 0x83],
      [CHR 0xE2, CHR 0x80, CHR 0x84], [CHR 0xE2, CHR 0x80, CHR 0x85],
      [CHR 0xE2, CHR 0x80, CHR 0x86], [CHR 0xE2, CHR 0x80, CHR 0x87],
      [CHR 0xE2, CHR 0x80, CHR 0x88], [CHR 0xE2, CHR 0x80, CHR 0x89],
      [CHR 0xE2, CHR 0x80, CHR 0x8A],
      [CHR 0xE2, CHR 0x80, CHR 0xA8], [CHR 0xE2, CHR 0x80, CHR 0xA9],
      [CHR 0xE2, CHR 0x80, CHR 0xAF], [CHR 0xE2, CHR 0x81, CHR 0x9F],
      [CHR 0xE3, CHR 0x80, CHR 0x80]]"

text \<open>The number of bytes of the white-space character a string starts with, if any.\<close>

definition space_prefix :: "string list \<Rightarrow> string \<Rightarrow> nat" where
  "space_prefix table s =
     (case List.find (\<lambda>w. take (length w) s = w) table of
        Some w \<Rightarrow> length w
      | None \<Rightarrow> 0)"

lemma space_prefix_le: "space_prefix table s \<le> length s"
proof (cases "List.find (\<lambda>w. take (length w) s = w) table")
  case None
  then show ?thesis by (simp add: space_prefix_def)
next
  case (Some w)
  then have "take (length w) s = w" by (auto simp: find_Some_iff)
  then have "length (take (length w) s) = length w" by simp
  then have "length w \<le> length s" by simp
  with Some show ?thesis by (simp add: space_prefix_def)
qed

function strip_leading :: "string list \<Rightarrow> string \<Rightarrow> string" where
  "strip_leading table s =
     (if 0 < space_prefix table s then strip_leading table (drop (space_prefix table s) s)
      else s)"
  by pat_completeness auto
termination
proof (relation "measure (\<lambda>(table, s). length s)")
  show "wf (measure (\<lambda>(table, s). length s))" by simp
next
  fix table :: "string list" and s :: string
  assume "0 < space_prefix table s"
  with space_prefix_le [of table s]
  show "((table, drop (space_prefix table s) s), (table, s)) \<in> measure (\<lambda>(table, s). length s)"
    by simp
qed

declare strip_leading.simps [simp del]

text \<open>The trailing white space is the leading white space of the reversed string, the
  encodings reversed.\<close>

definition strip :: "string \<Rightarrow> string" where
  "strip s = rev (strip_leading (map rev whitespace) (rev (strip_leading whitespace s)))"

text \<open>Decimal rendering of a non-negative integer, as \<open>f"{n}"\<close> prints it.\<close>

definition digit_char :: "nat \<Rightarrow> char" where
  "digit_char d = ''0123456789'' ! d"

fun show_nat :: "nat \<Rightarrow> string" where
  "show_nat n = (if n < 10 then [digit_char n] else show_nat (n div 10) @ [digit_char (n mod 10)])"

declare show_nat.simps [simp del]

text \<open>\<open>f"{index:03d}"\<close>: zero padding to width three.\<close>

definition pad3 :: "nat \<Rightarrow> string" where
  "pad3 n = (let s = show_nat n in replicate (3 - length s) (CHR ''0'') @ s)"

text \<open>\<open>str.rfind\<close> of one character: the index of its last occurrence.\<close>

fun rfind :: "char \<Rightarrow> string \<Rightarrow> nat option" where
  "rfind c [] = None"
| "rfind c (x # xs) =
     (case rfind c xs of
        Some i \<Rightarrow> Some (Suc i)
      | None \<Rightarrow> if x = c then Some 0 else None)"

fun split_on :: "char \<Rightarrow> string \<Rightarrow> string list" where
  "split_on c [] = [[]]"
| "split_on c (x # xs) =
     (if x = c then [] # split_on c xs
      else (case split_on c xs of
              [] \<Rightarrow> [[x]]
            | w # ws \<Rightarrow> (x # w) # ws))"

fun join_sep :: "string list \<Rightarrow> string" where
  "join_sep [] = []"
| "join_sep [x] = x"
| "join_sep (x # y # ys) = x @ ''/'' @ join_sep (y # ys)"

text \<open>
  \<open>pathlib.Path\<close> in its POSIX flavour: a root and the list of components.
  Parsing drops empty components and \<open>.\<close> components; exactly two leading slashes
  are kept as the root \<open>//\<close>.
\<close>

record path =
  root :: string
  parts :: "string list"

definition Path :: "string \<Rightarrow> path" where
  "Path s =
     \<lparr> root = (if take 2 s = ''//'' \<and> take 3 s \<noteq> ''///'' then ''//''
               else if take 1 s = ''/'' then ''/'' else ''''),
       parts = filter (\<lambda>c. c \<noteq> '''' \<and> c \<noteq> ''.'') (split_on (CHR ''/'') s) \<rparr>"

definition str_of :: "path \<Rightarrow> string" where
  "str_of p = (let s = root p @ join_sep (parts p) in if s = '''' then ''.'' else s)"

definition name :: "path \<Rightarrow> string" where
  "name p = (if parts p = [] then '''' else last (parts p))"

definition suffix_of_name :: "string \<Rightarrow> string" where
  "suffix_of_name n =
     (case rfind (CHR ''.'') n of
        Some i \<Rightarrow> if 0 < i \<and> Suc i < length n then drop i n else ''''
      | None \<Rightarrow> '''')"

definition stem_of_name :: "string \<Rightarrow> string" where
  "stem_of_name n =
     (case rfind (CHR ''.'') n of
        Some i \<Rightarrow> if 0 < i \<and> Suc i < length n then take i n else n
      | None \<Rightarrow> n)"

definition suffix :: "path \<Rightarrow> string" where
  "suffix p = suffix_of_name (name p)"

definition stem :: "path \<Rightarrow> string" where
  "stem p = stem_of_name (name p)"

text \<open>
  Exceptions, with their messages. \<open>FileNotFoundError\<close> is a subclass of
  \<open>OSError\<close>; \<open>OSError\<close> here stands for every other \<open>OSError\<close> (permission
  denied, cross-device link, no space left, ...); \<open>Exception\<close> for any other
  exception of a library.
\<close>

datatype exn =
    ImportError string
  | ValueError string
  | FileNotFoundError string
  | OSError string
  | Exception string

fun exn_msg :: "exn \<Rightarrow> string" where
  "exn_msg (ImportError m) = m"
| "exn_msg (ValueError m) = m"
| "exn_msg (FileNotFoundError m) = m"
| "exn_msg (OSError m) = m"
| "exn_msg (Exception m) = m"

text \<open>
  \<open>name\<close>, \<open>suffix\<close> and \<open>stem\<close> are those of \<open>pathlib\<close>: the suffix starts at the
  last dot of the name, unless that dot is the first or the last character.
  \<open>with_name\<close> raises \<open>ValueError\<close> on a path without a name and on an invalid new
  name (the texts of these two messages are shortened).
\<close>

definition with_name :: "path \<Rightarrow> string \<Rightarrow> exn + path" where
  "with_name p n =
     (if name p = '''' then Inl (ValueError (str_of p @ '' has an empty name''))
      else if n = '''' \<or> CHR ''/'' \<in> set n \<or> n = ''.'' then Inl (ValueError (''Invalid name '' @ n))
      else Inr (p\<lparr>parts := butlast (parts p) @ [n]\<rparr>))"

definition with_stem :: "path \<Rightarrow> string \<Rightarrow> exn + path" where
  "with_stem p s = with_name p (s @ suffix p)"

text \<open>The operator \<open>/\<close> of \<open>pathlib\<close>: an absolute segment replaces the left side.\<close>

definition joinpath :: "path \<Rightarrow> string \<Rightarrow> path" where
  "joinpath p seg =
     (let q = Path seg in if root q \<noteq> '''' then q else p\<lparr>parts := parts p @ parts q\<rparr>)"

definition SUPPORTED_EXTENSIONS :: "string set" where
  "SUPPORTED_EXTENSIONS = {''.pdf'', ''.tif'', ''.tiff'', ''.jpg'', ''.jpeg''}"

section \<open>The file system\<close>

text \<open>
  A finite map from path strings to nodes. A \<open>Path\<close> object reaches the file
  system through its string form.
\<close>

datatype node = RegularFile string | Directory

type_synonym fs = "(string, node) fmap"

definition path_exists :: "fs \<Rightarrow> path \<Rightarrow> bool" where
  "path_exists fs p = (fmlookup fs (str_of p) \<noteq> None)"

definition is_file :: "fs \<Rightarrow> path \<Rightarrow> bool" where
  "is_file fs p = (case fmlookup fs (str_of p) of Some (RegularFile d) \<Rightarrow> True | _ \<Rightarrow> False)"

section \<open>The window: file list, feedback label, message boxes\<close>

text \<open>
  An item of the list widget carries its display text, the path stored under the
  user role, and whether it is selected. The window is the list of items, the text
  of the feedback label and the message boxes shown so far. The enabling of the
  buttons (\<open>_sync_button_states\<close>) changes nothing of this state and is left out.
\<close>

record item =
  text_of :: string
  data :: string
  selected :: bool

datatype dialog = Critical string | Information string | Warning string string

record window =
  file_list :: "item list"
  feedback :: string
  dialogs :: "dialog list"

definition show_error :: "string \<Rightarrow> window \<Rightarrow> window" where
  "show_error message w = w\<lparr>dialogs := dialogs w @ [Critical message], feedback := message\<rparr>"

definition show_info :: "string \<Rightarrow> window \<Rightarrow> window" where
  "show_info message w = w\<lparr>dialogs := dialogs w @ [Information message], feedback := message\<rparr>"

subsection \<open>Adding files\<close>

fun path_already_listed :: "item list \<Rightarrow> string \<Rightarrow> bool" where
  "path_already_listed [] p = False"
| "path_already_listed (it # its) p = (if data it = p then True else path_already_listed its p)"

definition new_item :: "string \<Rightarrow> item" where
  "new_item p = \<lparr> text_of = name (Path p), data = p, selected = False \<rparr>"

text \<open>The loop of \<open>_add_path_batch\<close>, on the list of items and the counter \<open>added\<close>.\<close>

fun add_loop :: "fs \<Rightarrow> string list \<Rightarrow> item list \<times> nat \<Rightarrow> item list \<times> nat" where
  "add_loop fs [] (its, added) = (its, added)"
| "add_loop fs (p # ps) (its, added) =
     (if \<not> is_file fs (Path p) then add_loop fs ps (its, added)
      else if lower (suffix (Path p)) \<notin> SUPPORTED_EXTENSIONS then add_loop fs ps (its, added)
      else if path_already_listed its p then add_loop fs ps (its, added)
      else add_loop fs ps (its @ [new_item p], added + 1))"

definition add_path_batch :: "fs \<Rightarrow> string list \<Rightarrow> window \<Rightarrow> window" where
  "add_path_batch fs paths w =
     (if paths = [] then w
      else (case add_loop fs paths (file_list w, 0) of
              (its, added) \<Rightarrow>
                w\<lparr>file_list := its,
                  feedback := (if added \<noteq> 0 then ''Added '' @ show_nat added @ '' file(s).''
                               else ''No new supported files were added.'')\<rparr>))"

definition gather_paths :: "window \<Rightarrow> string list" where
  "gather_paths w = map data (file_list w)"

subsection \<open>Removing and moving the selection\<close>

text \<open>
  \<open>_remove_selected\<close> takes every selected item out of the list, each by its own
  current row: what stays are the items that are not selected, in their order.
  \<open>_move_selection\<close> computes the selected rows once, then visits them (upwards for a
  negative offset, downwards for a positive one); \<open>takeItem\<close> and \<open>insertItem\<close> act
  on the list as it is at that moment.
\<close>

definition remove_selected :: "window \<Rightarrow> window" where
  "remove_selected w =
     (if filter selected (file_list w) = [] then w
      else w\<lparr>file_list := filter (\<lambda>it. \<not> selected it) (file_list w),
             feedback := ''Removed selected entries.''\<rparr>)"

definition selected_rows :: "item list \<Rightarrow> nat list" where
  "selected_rows its = filter (\<lambda>i. selected (its ! i)) [0..<length its]"

definition take_item :: "nat \<Rightarrow> item list \<Rightarrow> item list" where
  "take_item row its = take row its @ drop (Suc row) its"

definition insert_item :: "nat \<Rightarrow> item \<Rightarrow> item list \<Rightarrow> item list" where
  "insert_item row it its = take row its @ [it] @ drop row its"

fun move_loop :: "int \<Rightarrow> nat list \<Rightarrow> item list \<Rightarrow> item list" where
  "move_loop offset [] its = its"
| "move_loop offset (row # rows) its =
     (let target = int row + offset in
      if target < 0 \<or> target \<ge> int (length its) then move_loop offset rows its
      else move_loop offset rows
             (insert_item (nat target) ((its ! row)\<lparr>selected := True\<rparr>) (take_item row its)))"

definition move_selection :: "int \<Rightarrow> window \<Rightarrow> window" where
  "move_selection offset w =
     (if offset = 0 then w
      else let rows = selected_rows (file_list w) in
        if rows = [] then w
        else w\<lparr>file_list := move_loop offset (if offset < 0 then rows else rev rows) (file_list w),
               feedback := ''Reordered selection.''\<rparr>)"

section \<open>The environment: libraries and the operating system\<close>

text \<open>
  The third-party libraries and the faults of the operating system are parameters of
  the model. Every library call either raises or returns its data; a page or a frame
  that cannot be rendered or decoded is an \<open>Inl\<close> element of the list.
\<close>

record env =
  has_PyPDF2 :: bool
  has_Pillow :: bool
  has_fitz :: bool
  rename_fault :: "string \<Rightarrow> string \<Rightarrow> string option"
  unlink_fault :: "string \<Rightarrow> string option"
  write_fault :: "string \<Rightarrow> string option"
  mktemp :: "fs \<Rightarrow> exn + string"
  pdf_reader :: "string \<Rightarrow> fs \<Rightarrow> exn + string list"
  pdf_writer :: "string list \<Rightarrow> exn + string"
  image_open_frames :: "string \<Rightarrow> fs \<Rightarrow> exn + (exn + string) list"
  image_open_rgb :: "string \<Rightarrow> fs \<Rightarrow> exn + string"
  image_encode_pdf :: "string list \<Rightarrow> exn + string"
  fitz_open :: "string \<Rightarrow> fs \<Rightarrow> exn + (exn + string) list"

definition write_file :: "env \<Rightarrow> path \<Rightarrow> string \<Rightarrow> fs \<Rightarrow> exn + fs" where
  "write_file e p d fs =
     (case write_fault e (str_of p) of
        Some m \<Rightarrow> Inl (OSError m)
      | None \<Rightarrow> Inr (fmupd (str_of p) (RegularFile d) fs))"

definition os_unlink :: "env \<Rightarrow> path \<Rightarrow> fs \<Rightarrow> exn + fs" where
  "os_unlink e p fs =
     (case unlink_fault e (str_of p) of
        Some m \<Rightarrow> Inl (OSError m)
      | None \<Rightarrow>
          (case fmlookup fs (str_of p) of
             None \<Rightarrow> Inl (FileNotFoundError (''No such file or directory: '' @ str_of p))
           | Some Directory \<Rightarrow> Inl (OSError (''Is a directory: '' @ str_of p))
           | Some (RegularFile d) \<Rightarrow> Inr (fmdrop (str_of p) fs)))"

text \<open>\<open>os.rename\<close> on POSIX: an existing target is replaced.\<close>

definition os_rename :: "env \<Rightarrow> path \<Rightarrow> path \<Rightarrow> fs \<Rightarrow> exn + fs" where
  "os_rename e src dst fs =
     (case rename_fault e (str_of src) (str_of dst) of
        Some m \<Rightarrow> Inl (OSError m)
      | None \<Rightarrow>
          (case fmlookup fs (str_of src) of
             None \<Rightarrow> Inl (FileNotFoundError (''No such file or directory: '' @ str_of src))
           | Some n \<Rightarrow> Inr (fmupd (str_of dst) n (fmdrop (str_of src) fs))))"

text \<open>\<open>tempfile.NamedTemporaryFile(delete=False, suffix=".pdf")\<close>, closed at once:
  an empty file under a name chosen by the library.\<close>

definition named_temporary_file :: "env \<Rightarrow> fs \<Rightarrow> exn + (string \<times> fs)" where
  "named_temporary_file e fs =
     (case mktemp e fs of
        Inl x \<Rightarrow> Inl x
      | Inr nm \<Rightarrow> Inr (nm, fmupd (str_of (Path nm)) (RegularFile '''') fs))"

text \<open>\<open>shutil.copy2\<close>.\<close>

definition copy2 :: "env \<Rightarrow> path \<Rightarrow> path \<Rightarrow> fs \<Rightarrow> exn + fs" where
  "copy2 e src dst fs =
     (case fmlookup fs (str_of src) of
        None \<Rightarrow> Inl (FileNotFoundError (''No such file or directory: '' @ str_of src))
      | Some Directory \<Rightarrow> Inl (OSError (''Is a directory: '' @ str_of src))
      | Some (RegularFile d) \<Rightarrow> write_file e dst d fs)"

section \<open>Renaming an entry\<close>

datatype rename_outcome =
    Renamed
  | Cancelled
  | UnsupportedExtension
  | NameConflictDeclined
  | RenameFailed
  | Uncaught exn

text \<open>
  \<open>answer\<close> is what the input dialog returns (text and the OK flag), \<open>overwrite\<close>
  whether the user answers Yes when asked to overwrite. The item is returned as the
  call leaves it.
\<close>

definition rename_item ::
  "env \<Rightarrow> string \<times> bool \<Rightarrow> bool \<Rightarrow> item \<Rightarrow> window \<times> fs \<Rightarrow> rename_outcome \<times> item \<times> window \<times> fs" where
  "rename_item e answer overwrite it st =
     (case st of (w, fs) \<Rightarrow>
      case answer of (typed, ok) \<Rightarrow>
      let original_path = Path (data it) in
      if \<not> ok \<or> strip typed = '''' then (Cancelled, it, w, fs)
      else
        let new_name = strip typed;
            new_suffix = lower (suffix (Path new_name));
            current_suffix = lower (suffix original_path)
        in
        if new_suffix \<noteq> '''' \<and> new_suffix \<notin> SUPPORTED_EXTENSIONS then
          (UnsupportedExtension, it,
           show_error ''Unsupported extension. Keep the file as PDF, TIF, TIFF, or JPG.'' w, fs)
        else
          let new_name = (if new_suffix = '''' then new_name @ current_suffix else new_name) in
          (case with_name original_path new_name of
             Inl x \<Rightarrow> (Uncaught x, it, w, fs)
           | Inr target_path \<Rightarrow>
               if path_exists fs target_path \<and> \<not> overwrite then (NameConflictDeclined, it, w, fs)
               else
                 (case os_rename e original_path target_path fs of
                    Inl x \<Rightarrow>
                      (RenameFailed, it, show_error (''Failed to rename file: '' @ exn_msg x) w, fs)
                  | Inr fs' \<Rightarrow>
                      (Renamed,
                       it\<lparr>data := str_of target_path, text_of := name target_path\<rparr>,
                       w\<lparr>feedback := ''Renamed to '' @ name target_path @ ''.''\<rparr>,
                       fs'))))"

text \<open>
  Renaming the item of a row (a double click, or one step of Rename Selected). The
  source is handed the item itself, so \<open>row\<close> is always a row of the list; the
  properties below are stated for \<open>row < length (file_list w)\<close>.
\<close>

definition rename_item_inline ::
  "env \<Rightarrow> string \<times> bool \<Rightarrow> bool \<Rightarrow> nat \<Rightarrow> window \<times> fs \<Rightarrow> rename_outcome \<times> window \<times> fs" where
  "rename_item_inline e answer overwrite row st =
     (case rename_item e answer overwrite (file_list (fst st) ! row) st of
        (outcome, it', w', fs') \<Rightarrow> (outcome, w'\<lparr>file_list := (file_list w')[row := it']\<rparr>, fs'))"

section \<open>Conflict resolution\<close>

text \<open>
  The loop of \<open>_resolve_conflict_path\<close> ends because the file system holds finitely
  many paths and the candidates of different counters are different paths. The facts
  below carry that argument.
\<close>

lemma digit_char_inj: "a < 10 \<Longrightarrow> b < 10 \<Longrightarrow> digit_char a = digit_char b \<Longrightarrow> a = b"
proof -
  assume a: "a < 10" and b: "b < 10" and e: "digit_char a = digit_char b"
  have d: "distinct ''0123456789''" by simp
  have l: "length ''0123456789'' = 10" by simp
  from e have "''0123456789'' ! a = ''0123456789'' ! b" by (simp only: digit_char_def)
  with d a b l show "a = b"
    by (metis nth_eq_iff_index_eq)
qed

lemma show_nat_nonempty: "show_nat n \<noteq> []"
  by (subst show_nat.simps) simp

lemma show_nat_inj: "show_nat m = show_nat n \<Longrightarrow> m = n"
proof (induction m arbitrary: n rule: show_nat.induct)
  case (1 m)
  show ?case
  proof (cases "m < 10")
    case True
    then have sm: "show_nat m = [digit_char m]" by (subst show_nat.simps) simp
    show ?thesis
    proof (cases "n < 10")
      case n: True
      then have "show_nat n = [digit_char n]" by (subst show_nat.simps) simp
      with sm "1.prems" True n show ?thesis by (simp add: digit_char_inj)
    next
      case n: False
      then have "show_nat n = show_nat (n div 10) @ [digit_char (n mod 10)]"
        by (subst show_nat.simps) simp
      with sm "1.prems" show ?thesis using show_nat_nonempty [of "n div 10"] by simp
    qed
  next
    case False
    then have sm: "show_nat m = show_nat (m div 10) @ [digit_char (m mod 10)]"
      by (subst show_nat.simps) simp
    show ?thesis
    proof (cases "n < 10")
      case n: True
      then have "show_nat n = [digit_char n]" by (subst show_nat.simps) simp
      with sm "1.prems" show ?thesis using show_nat_nonempty [of "m div 10"] by simp
    next
      case n: False
      then have "show_nat n = show_nat (n div 10) @ [digit_char (n mod 10)]"
        by (subst show_nat.simps) simp
      with sm "1.prems" have e1: "show_nat (m div 10) = show_nat (n div 10)"
        and e2: "digit_char (m mod 10) = digit_char (n mod 10)" by simp_all
      from "1.IH" [OF False e1] have d: "m div 10 = n div 10" .
      from e2 have "m mod 10 = n mod 10" by (intro digit_char_inj) simp_all
      with d show ?thesis by (metis div_mult_mod_eq)
    qed
  qed
qed

lemma join_sep_snoc: "join_sep (xs @ [n]) = concat (map (\<lambda>x. x @ ''/'') xs) @ n"
proof (induction xs)
  case Nil
  show ?case by simp
next
  case (Cons x xs)
  then show ?case by (cases xs) simp_all
qed

text \<open>The path with \<open>_k\<close> appended to the stem of the file name, the extension kept.\<close>

definition candidate_path :: "path \<Rightarrow> nat \<Rightarrow> path" where
  "candidate_path p k = p\<lparr>parts := butlast (parts p) @ [stem p @ ''_'' @ show_nat k @ suffix p]\<rparr>"

lemma str_of_candidate_path:
  "str_of (candidate_path p k) =
     root p @ concat (map (\<lambda>x. x @ ''/'') (butlast (parts p))) @ stem p @ ''_'' @ show_nat k @ suffix p"
  by (simp add: str_of_def candidate_path_def join_sep_snoc Let_def)

lemma inj_str_of_candidate: "inj (\<lambda>k. str_of (candidate_path p k))"
  by (rule injI) (simp add: str_of_candidate_path show_nat_inj)

lemma with_stem_candidate:
  "with_stem p (stem p @ ''_'' @ show_nat k) = Inr q \<Longrightarrow> q = candidate_path p k"
  by (auto simp: with_stem_def with_name_def candidate_path_def split: if_splits)

lemma finite_existing_candidates:
  "finite {k. \<exists>q. with_stem p (stem p @ ''_'' @ show_nat k) = Inr q \<and> path_exists fs q}"
proof -
  have "finite ((\<lambda>k. str_of (candidate_path p k)) -` fmdom' fs)"
    by (intro finite_vimageI inj_str_of_candidate) simp
  moreover have "{k. \<exists>q. with_stem p (stem p @ ''_'' @ show_nat k) = Inr q \<and> path_exists fs q}
      \<subseteq> (\<lambda>k. str_of (candidate_path p k)) -` fmdom' fs"
  proof
    fix k
    assume "k \<in> {k. \<exists>q. with_stem p (stem p @ ''_'' @ show_nat k) = Inr q \<and> path_exists fs q}"
    then obtain q where q: "with_stem p (stem p @ ''_'' @ show_nat k) = Inr q"
      and e: "path_exists fs q" by blast
    from q have "q = candidate_path p k" by (rule with_stem_candidate)
    with e have "fmlookup fs (str_of (candidate_path p k)) \<noteq> None"
      by (simp add: path_exists_def)
    then have "str_of (candidate_path p k) \<in> fmdom' fs"
      by (auto intro: fmdom'I)
    then show "k \<in> (\<lambda>k. str_of (candidate_path p k)) -` fmdom' fs" by simp
  qed
  ultimately show ?thesis by (rule rev_finite_subset)
qed

function resolve_loop :: "fs \<Rightarrow> path \<Rightarrow> nat \<Rightarrow> exn + path" where
  "resolve_loop fs p counter =
     (case with_stem p (stem p @ ''_'' @ show_nat counter) of
        Inl x \<Rightarrow> Inl x
      | Inr candidate \<Rightarrow>
          if \<not> path_exists fs candidate then Inr candidate
          else resolve_loop fs p (counter + 1))"
  by pat_completeness auto
termination
proof (relation "measure (\<lambda>(fs, p, c).
    card {k. c \<le> k \<and> (\<exists>q. with_stem p (stem p @ ''_'' @ show_nat k) = Inr q \<and> path_exists fs q)})")
  show "wf (measure (\<lambda>(fs, p, c).
    card {k. c \<le> k \<and> (\<exists>q. with_stem p (stem p @ ''_'' @ show_nat k) = Inr q \<and> path_exists fs q)}))"
    by simp
next
  fix fs :: fs and p :: path and counter :: nat and x2 :: path
  assume w: "with_stem p (stem p @ ''_'' @ show_nat counter) = Inr x2"
    and e: "\<not> \<not> path_exists fs x2"
  let ?S = "\<lambda>c. {k. c \<le> k \<and> (\<exists>q. with_stem p (stem p @ ''_'' @ show_nat k) = Inr q \<and> path_exists fs q)}"
  have fin: "finite (?S counter)"
    using finite_existing_candidates [of p fs] by (rule rev_finite_subset) auto
  have "counter \<in> ?S counter" using w e by auto
  moreover have "counter \<notin> ?S (counter + 1)" by simp
  moreover have "?S (counter + 1) \<subseteq> ?S counter" by auto
  ultimately have "?S (counter + 1) \<subset> ?S counter" by blast
  with fin have "card (?S (counter + 1)) < card (?S counter)"
    by (rule psubset_card_mono)
  then show "((fs, p, counter + 1), (fs, p, counter)) \<in> measure (\<lambda>(fs, p, c).
    card {k. c \<le> k \<and> (\<exists>q. with_stem p (stem p @ ''_'' @ show_nat k) = Inr q \<and> path_exists fs q)})"
    by simp
qed

declare resolve_loop.simps [simp del]

definition resolve_conflict_path :: "fs \<Rightarrow> path \<Rightarrow> exn + path" where
  "resolve_conflict_path fs p = (if \<not> path_exists fs p then Inr p else resolve_loop fs p 1)"

section \<open>Export to JPG\<close>

text \<open>
  Every converter returns its result, or the exception it raises, together with the
  file system as it leaves it: the files written before an exception stay.
\<close>

fun pdf_pages_loop ::
  "env \<Rightarrow> string \<Rightarrow> path \<Rightarrow> (exn + string) list \<Rightarrow> nat \<Rightarrow> nat \<times> fs \<Rightarrow> (exn + nat) \<times> fs" where
  "pdf_pages_loop e p output_dir [] index (exported, fs) = (Inr exported, fs)"
| "pdf_pages_loop e p output_dir (page # pages) index (exported, fs) =
     (case page of
        Inl x \<Rightarrow> (Inl x, fs)
      | Inr pixmap \<Rightarrow>
          (case resolve_conflict_path fs
                  (joinpath output_dir (stem (Path p) @ ''_page'' @ pad3 index @ ''.jpg'')) of
             Inl x \<Rightarrow> (Inl x, fs)
           | Inr target \<Rightarrow>
               (case write_file e target pixmap fs of
                  Inl x \<Rightarrow> (Inl x, fs)
                | Inr fs' \<Rightarrow> pdf_pages_loop e p output_dir pages (index + 1) (exported + 1, fs'))))"

definition convert_pdf_to_jpg :: "env \<Rightarrow> string \<Rightarrow> path \<Rightarrow> fs \<Rightarrow> (exn + nat) \<times> fs" where
  "convert_pdf_to_jpg e p output_dir fs =
     (if \<not> has_fitz e then
        (Inl (ImportError ''PyMuPDF is required to export PDF pages to JPG''), fs)
      else
        (case fitz_open e p fs of
           Inl x \<Rightarrow> (Inl x, fs)
         | Inr document \<Rightarrow> pdf_pages_loop e p output_dir document 1 (0, fs)))"

fun tiff_frames_loop ::
  "env \<Rightarrow> string \<Rightarrow> path \<Rightarrow> (exn + string) list \<Rightarrow> nat \<Rightarrow> nat \<times> fs \<Rightarrow> (exn + nat) \<times> fs" where
  "tiff_frames_loop e p output_dir [] index (exported, fs) = (Inr exported, fs)"
| "tiff_frames_loop e p output_dir (frame # frames) index (exported, fs) =
     (case frame of
        Inl x \<Rightarrow> (Inl x, fs)
      | Inr rgb \<Rightarrow>
          (case resolve_conflict_path fs
                  (joinpath output_dir (stem (Path p) @ ''_frame'' @ pad3 index @ ''.jpg'')) of
             Inl x \<Rightarrow> (Inl x, fs)
           | Inr target \<Rightarrow>
               (case write_file e target rgb fs of
                  Inl x \<Rightarrow> (Inl x, fs)
                | Inr fs' \<Rightarrow> tiff_frames_loop e p output_dir frames (index + 1) (exported + 1, fs'))))"

definition convert_tiff_to_jpg :: "env \<Rightarrow> string \<Rightarrow> path \<Rightarrow> fs \<Rightarrow> (exn + nat) \<times> fs" where
  "convert_tiff_to_jpg e p output_dir fs =
     (if \<not> has_Pillow e then
        (Inl (ImportError ''Pillow is required to export TIFF frames to JPG''), fs)
      else
        (case image_open_frames e p fs of
           Inl x \<Rightarrow> (Inl x, fs)
         | Inr img \<Rightarrow> tiff_frames_loop e p output_dir img 1 (0, fs)))"

definition copy_jpg_to_output :: "env \<Rightarrow> string \<Rightarrow> path \<Rightarrow> fs \<Rightarrow> (exn + nat) \<times> fs" where
  "copy_jpg_to_output e p output_dir fs =
     (let source = Path p in
      case resolve_conflict_path fs (joinpath output_dir (name source)) of
        Inl x \<Rightarrow> (Inl x, fs)
      | Inr target \<Rightarrow>
          (case copy2 e source target fs of
             Inl x \<Rightarrow> (Inl x, fs)
           | Inr fs' \<Rightarrow> (Inr 1, fs')))"

definition convert_file_to_jpg :: "env \<Rightarrow> string \<Rightarrow> path \<Rightarrow> fs \<Rightarrow> (exn + nat) \<times> fs" where
  "convert_file_to_jpg e p output_dir fs =
     (let sfx = lower (suffix (Path p)) in
      if sfx = ''.pdf'' then convert_pdf_to_jpg e p output_dir fs
      else if sfx \<in> {''.tif'', ''.tiff''} then convert_tiff_to_jpg e p output_dir fs
      else if sfx \<in> {''.jpg'', ''.jpeg''} then copy_jpg_to_output e p output_dir fs
      else (Inl (ValueError (''Unsupported file encountered: '' @ p)), fs))"

text \<open>
  The loop of \<open>_export_to_jpg\<close> over the paths, on the counter, the list of issues
  and the file system. \<open>Inl\<close> is the early return on an \<open>ImportError\<close>, with its
  message.
\<close>

fun export_loop ::
  "env \<Rightarrow> path \<Rightarrow> string list \<Rightarrow> nat \<times> string list \<times> fs \<Rightarrow> (string \<times> fs) + (nat \<times> string list \<times> fs)" where
  "export_loop e output_dir [] (exported_files, issues, fs) = Inr (exported_files, issues, fs)"
| "export_loop e output_dir (p # ps) (exported_files, issues, fs) =
     (case convert_file_to_jpg e p output_dir fs of
        (Inr n, fs') \<Rightarrow> export_loop e output_dir ps (exported_files + n, issues, fs')
      | (Inl (ImportError m), fs') \<Rightarrow> Inl (m, fs')
      | (Inl x, fs') \<Rightarrow>
          export_loop e output_dir ps
            (exported_files, issues @ [name (Path p) @ '': '' @ exn_msg x], fs'))"

fun join_lines :: "string list \<Rightarrow> string" where
  "join_lines [] = []"
| "join_lines [x] = x"
| "join_lines (x # y # ys) = x @ [CHR 0x0A] @ join_lines (y # ys)"

text \<open>\<open>destination\<close> is the folder the user chooses; empty when the dialog is cancelled.\<close>

definition export_to_jpg :: "env \<Rightarrow> string \<Rightarrow> window \<times> fs \<Rightarrow> window \<times> fs" where
  "export_to_jpg e destination st =
     (case st of (w, fs) \<Rightarrow>
      let paths = gather_paths w in
      if paths = [] then (show_info ''Add at least one file before exporting.'' w, fs)
      else if destination = '''' then (w, fs)
      else
        let output_dir = Path destination in
        (case export_loop e output_dir paths (0, [], fs) of
           Inl (m, fs') \<Rightarrow>
             (show_error (''Missing dependency: '' @ m @
                          ''. Install the required package and try again.'') w, fs')
         | Inr (exported_files, issues, fs') \<Rightarrow>
             let w1 = (if exported_files \<noteq> 0 then
                         show_info (''Exported '' @ show_nat exported_files @
                                    '' JPG file(s) to '' @ str_of output_dir @ ''.'') w
                       else show_error ''No JPG files were exported.'' w)
             in (if issues \<noteq> [] then
                   w1\<lparr>dialogs := dialogs w1 @
                                   [Warning ''Export completed with issues'' (join_lines issues)]\<rparr>
                 else w1, fs')))"

section \<open>Merge into one PDF\<close>

text \<open>Collecting the frames of a TIFF: the first frame that fails to decode raises.\<close>

fun collect_frames :: "(exn + string) list \<Rightarrow> exn + string list" where
  "collect_frames [] = Inr []"
| "collect_frames (Inl x # fr) = Inl x"
| "collect_frames (Inr d # fr) = (case collect_frames fr of Inl x \<Rightarrow> Inl x | Inr ds \<Rightarrow> Inr (d # ds))"

definition convert_tiff_to_pdf :: "env \<Rightarrow> string \<Rightarrow> fs \<Rightarrow> (exn + string) \<times> fs" where
  "convert_tiff_to_pdf e p fs =
     (if \<not> has_Pillow e then (Inl (ImportError ''Pillow is required to convert TIFF files''), fs)
      else
        (case image_open_frames e p fs of
           Inl x \<Rightarrow> (Inl x, fs)
         | Inr img \<Rightarrow>
             (case collect_frames img of
                Inl x \<Rightarrow> (Inl x, fs)
              | Inr frames \<Rightarrow>
                  if frames = [] then (Inl (ValueError (''No frames found in TIFF: '' @ p)), fs)
                  else
                    (case named_temporary_file e fs of
                       Inl x \<Rightarrow> (Inl x, fs)
                     | Inr (descriptor_name, fs1) \<Rightarrow>
                         (case image_encode_pdf e frames of
                            Inl x \<Rightarrow> (Inl x, fs1)
                          | Inr d \<Rightarrow>
                              (case write_file e (Path descriptor_name) d fs1 of
                                 Inl x \<Rightarrow> (Inl x, fs1)
                               | Inr fs2 \<Rightarrow> (Inr descriptor_name, fs2)))))))"

definition convert_image_to_pdf :: "env \<Rightarrow> string \<Rightarrow> fs \<Rightarrow> (exn + string) \<times> fs" where
  "convert_image_to_pdf e p fs =
     (if \<not> has_Pillow e then (Inl (ImportError ''Pillow is required to convert image files''), fs)
      else
        (case image_open_rgb e p fs of
           Inl x \<Rightarrow> (Inl x, fs)
         | Inr rgb_image \<Rightarrow>
             (case named_temporary_file e fs of
                Inl x \<Rightarrow> (Inl x, fs)
              | Inr (descriptor_name, fs1) \<Rightarrow>
                  (case image_encode_pdf e [rgb_image] of
                     Inl x \<Rightarrow> (Inl x, fs1)
                   | Inr d \<Rightarrow>
                       (case write_file e (Path descriptor_name) d fs1 of
                          Inl x \<Rightarrow> (Inl x, fs1)
                        | Inr fs2 \<Rightarrow> (Inr descriptor_name, fs2))))))"

text \<open>
  The body of the \<open>try\<close> block: the loop over the paths, on the list of temporary
  files, the pages appended to the merger and the file system. The first component
  is the exception that ends the loop, if any.
\<close>

fun merge_loop ::
  "env \<Rightarrow> string list \<Rightarrow> string list \<times> string list \<times> fs \<Rightarrow> exn option \<times> string list \<times> string list \<times> fs" where
  "merge_loop e [] (temp_files, merger, fs) = (None, temp_files, merger, fs)"
| "merge_loop e (p # ps) (temp_files, merger, fs) =
     (let sfx = lower (suffix (Path p)) in
      if sfx = ''.pdf'' then
        (case pdf_reader e p fs of
           Inl x \<Rightarrow> (Some x, temp_files, merger, fs)
         | Inr pages \<Rightarrow> merge_loop e ps (temp_files, merger @ pages, fs))
      else if sfx \<in> {''.tif'', ''.tiff''} then
        (case convert_tiff_to_pdf e p fs of
           (Inl x, fs1) \<Rightarrow> (Some x, temp_files, merger, fs1)
         | (Inr temp_pdf, fs1) \<Rightarrow>
             (case pdf_reader e temp_pdf fs1 of
                Inl x \<Rightarrow> (Some x, temp_files @ [temp_pdf], merger, fs1)
              | Inr pages \<Rightarrow> merge_loop e ps (temp_files @ [temp_pdf], merger @ pages, fs1)))
      else if sfx \<in> {''.jpg'', ''.jpeg''} then
        (case convert_image_to_pdf e p fs of
           (Inl x, fs1) \<Rightarrow> (Some x, temp_files, merger, fs1)
         | (Inr temp_pdf, fs1) \<Rightarrow>
             (case pdf_reader e temp_pdf fs1 of
                Inl x \<Rightarrow> (Some x, temp_files @ [temp_pdf], merger, fs1)
              | Inr pages \<Rightarrow> merge_loop e ps (temp_files @ [temp_pdf], merger @ pages, fs1)))
      else (Some (ValueError (''Unsupported file encountered: '' @ p)), temp_files, merger, fs))"

text \<open>\<open>open(output_path, "wb")\<close> creates or truncates the file, then the merger writes.\<close>

definition write_output :: "env \<Rightarrow> string \<Rightarrow> string list \<Rightarrow> fs \<Rightarrow> exn option \<times> fs" where
  "write_output e output_path merger fs =
     (case write_file e (Path output_path) '''' fs of
        Inl x \<Rightarrow> (Some x, fs)
      | Inr fs1 \<Rightarrow>
          (case pdf_writer e merger of
             Inl x \<Rightarrow> (Some x, fs1)
           | Inr d \<Rightarrow> (None, fmupd (str_of (Path output_path)) (RegularFile d) fs1)))"

text \<open>
  The loop of the \<open>finally\<close> block. Only \<open>FileNotFoundError\<close> is caught; any other
  exception of \<open>unlink\<close> leaves the loop and the function.
\<close>

fun cleanup :: "env \<Rightarrow> string list \<Rightarrow> fs \<Rightarrow> exn option \<times> fs" where
  "cleanup e [] fs = (None, fs)"
| "cleanup e (temp_file # temp_files) fs =
     (case os_unlink e (Path temp_file) fs of
        Inr fs' \<Rightarrow> cleanup e temp_files fs'
      | Inl (FileNotFoundError m) \<Rightarrow> cleanup e temp_files fs
      | Inl x \<Rightarrow> (Some x, fs))"

text \<open>
  The body of the \<open>try\<close> block as a whole: the exception it ends with, if any, the
  temporary files it has recorded, and the file system.
\<close>

definition merge_try :: "env \<Rightarrow> string list \<Rightarrow> string \<Rightarrow> fs \<Rightarrow> exn option \<times> string list \<times> fs" where
  "merge_try e paths output_path fs =
     (case merge_loop e paths ([], [], fs) of
        (Some x, temp_files, merger, fs1) \<Rightarrow> (Some x, temp_files, fs1)
      | (None, temp_files, merger, fs1) \<Rightarrow>
          (case write_output e output_path merger fs1 of
             (r, fs2) \<Rightarrow> (r, temp_files, fs2)))"

text \<open>
  \<open>_merge_into_pdf\<close>: \<open>None\<close> is a normal return, \<open>Some x\<close> the exception that
  leaves the function. An exception raised in the \<open>finally\<close> block replaces the one
  of the \<open>try\<close> block.
\<close>

definition merge_into_pdf :: "env \<Rightarrow> string list \<Rightarrow> string \<Rightarrow> fs \<Rightarrow> exn option \<times> fs" where
  "merge_into_pdf e paths output_path fs =
     (if \<not> has_PyPDF2 e then (Some (ImportError ''PyPDF2 is required to write PDF output''), fs)
      else
        (case merge_try e paths output_path fs of
           (r, temp_files, fs1) \<Rightarrow>
             (case cleanup e temp_files fs1 of
                (Some x, fs2) \<Rightarrow> (Some x, fs2)
              | (None, fs2) \<Rightarrow> (r, fs2))))"

section \<open>Notions of the specification\<close>

text \<open>
  The entries a batch adds, as the specification words it: of the paths of the batch,
  each taken at its first occurrence, those that are regular files with a supported
  extension and are not yet in the list.
\<close>

definition first_occurrences :: "'a list \<Rightarrow> 'a list" where
  "first_occurrences xs = rev (remdups (rev xs))"

definition eligible :: "fs \<Rightarrow> string \<Rightarrow> bool" where
  "eligible fs p \<longleftrightarrow> is_file fs (Path p) \<and> lower (suffix (Path p)) \<in> SUPPORTED_EXTENSIONS"

definition accepted :: "fs \<Rightarrow> item list \<Rightarrow> string list \<Rightarrow> string list" where
  "accepted fs its paths = [p \<leftarrow> first_occurrences paths. eligible fs p \<and> p \<notin> data ` set its]"

text \<open>The file name a rename asks for: the typed name, stripped, with the extension of
  the original file when it has none of its own.\<close>

definition requested_name :: "item \<Rightarrow> string \<Rightarrow> string" where
  "requested_name it typed =
     (let n = strip typed in
      if lower (suffix (Path n)) = '''' then n @ lower (suffix (Path (data it))) else n)"

text \<open>
  The outcome of each file of an export run, the converters being run one after the
  other on the file system the previous one leaves; the file system after the run;
  what an outcome adds to the count and to the list of issues; and whether an outcome
  is a missing-dependency error.
\<close>

fun export_outcomes :: "env \<Rightarrow> path \<Rightarrow> string list \<Rightarrow> fs \<Rightarrow> (string \<times> (exn + nat)) list" where
  "export_outcomes e output_dir [] fs = []"
| "export_outcomes e output_dir (p # ps) fs =
     (p, fst (convert_file_to_jpg e p output_dir fs)) #
     export_outcomes e output_dir ps (snd (convert_file_to_jpg e p output_dir fs))"

fun export_fs :: "env \<Rightarrow> path \<Rightarrow> string list \<Rightarrow> fs \<Rightarrow> fs" where
  "export_fs e output_dir [] fs = fs"
| "export_fs e output_dir (p # ps) fs =
     export_fs e output_dir ps (snd (convert_file_to_jpg e p output_dir fs))"

fun outputs_of :: "string \<times> (exn + nat) \<Rightarrow> nat" where
  "outputs_of (p, Inr n) = n"
| "outputs_of (p, Inl x) = 0"

fun issue_of :: "string \<times> (exn + nat) \<Rightarrow> string list" where
  "issue_of (p, Inr n) = []"
| "issue_of (p, Inl x) = [name (Path p) @ '': '' @ exn_msg x]"

fun missing_dependency :: "string \<times> (exn + nat) \<Rightarrow> bool" where
  "missing_dependency (p, Inl (ImportError m)) = True"
| "missing_dependency (p, r) = False"

section \<open>Example states\<close>

definition w_first :: window where
  "w_first =
     \<lparr>file_list = [\<lparr>text_of = ''a.pdf'', data = ''/d/a.pdf'', selected = True\<rparr>,
                   \<lparr>text_of = ''b.tif'', data = ''/d/b.tif'', selected = False\<rparr>,
                   \<lparr>text_of = ''c.jpg'', data = ''/d/c.jpg'', selected = False\<rparr>],
      feedback = '''', dialogs = []\<rparr>"

definition w_last :: window where
  "w_last =
     \<lparr>file_list = [\<lparr>text_of = ''a.pdf'', data = ''/d/a.pdf'', selected = False\<rparr>,
                   \<lparr>text_of = ''b.tif'', data = ''/d/b.tif'', selected = False\<rparr>,
                   \<lparr>text_of = ''c.jpg'', data = ''/d/c.jpg'', selected = True\<rparr>],
      feedback = '''', dialogs = []\<rparr>"

definition fs_two :: fs where
  "fs_two = fmupd ''/out/name_1.jpg'' (RegularFile ''b'')
             (fmupd ''/out/name.jpg'' (RegularFile ''a'') (fmupd ''/out'' Directory fmempty))"

definition fs_docs :: fs where
  "fs_docs = fmupd ''/d/a.pdf'' (RegularFile ''A'')
              (fmupd ''/d/b.pdf'' (RegularFile ''B'')
                (fmupd ''/d/notes.txt'' (RegularFile ''N'') (fmupd ''/d'' Directory fmempty)))"

definition w_empty :: window where
  "w_empty = \<lparr>file_list = [], feedback = '''', dialogs = []\<rparr>"

definition env_ok :: env where
  "env_ok =
     \<lparr> has_PyPDF2 = True, has_Pillow = True, has_fitz = True,
       rename_fault = (\<lambda>src dst. None),
       unlink_fault = (\<lambda>p. None),
       write_fault = (\<lambda>p. None),
       mktemp = (\<lambda>fs. Inr ''/tmp/tmpk3x9.pdf''),
       pdf_reader = (\<lambda>p fs. case fmlookup fs p of
                               Some (RegularFile d) \<Rightarrow> Inr [d]
                             | _ \<Rightarrow> Inl (FileNotFoundError p)),
       pdf_writer = (\<lambda>pages. Inr (concat pages)),
       image_open_frames = (\<lambda>p fs. case fmlookup fs p of
                               Some (RegularFile d) \<Rightarrow>
                                 if d = ''corrupt'' then Inl (Exception ''cannot identify image file'')
                                 else Inr [Inr d]
                             | _ \<Rightarrow> Inl (FileNotFoundError p)),
       image_open_rgb = (\<lambda>p fs. case fmlookup fs p of
                               Some (RegularFile d) \<Rightarrow> Inr d
                             | _ \<Rightarrow> Inl (FileNotFoundError p)),
       image_encode_pdf = (\<lambda>frames. Inr (concat frames)),
       fitz_open = (\<lambda>p fs. case fmlookup fs p of
                               Some (RegularFile d) \<Rightarrow> Inr [Inr d, Inr d]
                             | _ \<Rightarrow> Inl (FileNotFoundError p)) \<rparr>"

definition w_ab :: window where
  "w_ab =
     \<lparr>file_list = [\<lparr>text_of = ''a.pdf'', data = ''/d/a.pdf'', selected = True\<rparr>,
                   \<lparr>text_of = ''b.pdf'', data = ''/d/b.pdf'', selected = False\<rparr>],
      feedback = '''', dialogs = []\<rparr>"

definition env_denied :: env where
  "env_denied = env_ok\<lparr>rename_fault := (\<lambda>src dst. Some ''Permission denied'')\<rparr>"

definition env_nofitz :: env where
  "env_nofitz = env_ok\<lparr>has_fitz := False\<rparr>"

definition fs_in :: fs where
  "fs_in = fmupd ''/in/x.pdf'' (RegularFile ''X'')
            (fmupd ''/in/bad.tif'' (RegularFile ''corrupt'')
              (fmupd ''/in/b.jpg'' (RegularFile ''J'')
                (fmupd ''/out'' Directory fmempty)))"

definition env_nopillow :: env where
  "env_nopillow = env_ok\<lparr>has_Pillow := False\<rparr>"

definition w_export :: window where
  "w_export =
     \<lparr>file_list = [\<lparr>text_of = ''x.pdf'', data = ''/in/x.pdf'', selected = False\<rparr>,
                   \<lparr>text_of = ''bad.tif'', data = ''/in/bad.tif'', selected = False\<rparr>,
                   \<lparr>text_of = ''b.jpg'', data = ''/in/b.jpg'', selected = False\<rparr>],
      feedback = '''', dialogs = []\<rparr>"

definition env_locked :: env where
  "env_locked = env_ok\<lparr>unlink_fault := (\<lambda>p. Some ''Permission denied'')\<rparr>"

definition env_full :: env where
  "env_full =
     env_ok\<lparr>write_fault :=
       (\<lambda>p. if p = ''/tmp/tmpk3x9.pdf'' then Some ''No space left on device'' else None)\<rparr>"

definition fs_tmp :: fs where
  "fs_tmp = fmupd ''/tmp/tmpk3x9.pdf'' (RegularFile ''T'') fs_in"

text \<open>
  Typed names with white space beyond ASCII: \<open>c.pdf\<close> followed by U+00A0;
  \<open>report.docx\<close> between U+3000, a tab and U+2028; and U+0020, U+0085, U+2003 alone.
\<close>

definition typed_nbsp :: string where
  "typed_nbsp = ''c.pdf'' @ [CHR 0xC2, CHR 0xA0]"

definition typed_wide :: string where
  "typed_wide =
     [CHR 0xE3, CHR 0x80, CHR 0x80, CHR 0x09] @ ''report.docx'' @ [CHR 0xE2, CHR 0x80, CHR 0xA8]"

definition typed_blank :: string where
  "typed_blank = [CHR 0x20, CHR 0xC2, CHR 0x85, CHR 0xE2, CHR 0x80, CHR 0x83]"

definition w_tail :: window where
  "w_tail =
     \<lparr>file_list = [\<lparr>text_of = ''a.pdf'', data = ''/d/a.pdf'', selected = False\<rparr>,
                   \<lparr>text_of = ''b.tif'', data = ''/d/b.tif'', selected = True\<rparr>,
                   \<lparr>text_of = ''c.jpg'', data = ''/d/c.jpg'', selected = True\<rparr>],
      feedback = '''', dialogs = []\<rparr>"

section \<open>Properties of the file list\<close>

lemma selected_rows_Nil: "selected_rows [] = []"
  by (simp add: selected_rows_def)

text \<open>
  C9. Moving up when the selection is exactly the first entry, and moving down when
  the selection is exactly the last entry, leave the order of the list as it is.
\<close>

theorem move_selection_boundary_noop:
  "(selected_rows (file_list w) = [0] \<longrightarrow> file_list (move_selection (- 1) w) = file_list w) \<and>
   (selected_rows (file_list w) = [length (file_list w) - 1] \<longrightarrow>
      file_list (move_selection 1 w) = file_list w)"
proof (intro conjI impI)
  assume "selected_rows (file_list w) = [0]"
  then show "file_list (move_selection (- 1) w) = file_list w"
    by (simp add: move_selection_def)
next
  assume sel: "selected_rows (file_list w) = [length (file_list w) - 1]"
  then have "file_list w \<noteq> []"
    using selected_rows_Nil by fastforce
  then have "int (length (file_list w) - 1) + 1 = int (length (file_list w))"
    by (cases "file_list w") simp_all
  with sel show "file_list (move_selection 1 w) = file_list w"
    by (simp add: move_selection_def)
qed

theorem move_selection_boundary_noop_witness:
  "selected_rows (file_list w_first) = [0] \<and>
   file_list (move_selection (- 1) w_first) = file_list w_first \<and>
   selected_rows (file_list w_last) = [length (file_list w_last) - 1] \<and>
   file_list (move_selection 1 w_last) = file_list w_last"
proof -
  have h1: "selected_rows (file_list w_first) = [0]"
    by (simp add: w_first_def selected_rows_def upt_rec)
  have h2: "selected_rows (file_list w_last) = [length (file_list w_last) - 1]"
    by (simp add: w_last_def selected_rows_def upt_rec)
  from h1 h2 show ?thesis
    using move_selection_boundary_noop [of w_first] move_selection_boundary_noop [of w_last]
    by blast
qed

lemmas path_simps = Path_def str_of_def name_def stem_def suffix_def stem_of_name_def
  suffix_of_name_def with_stem_def with_name_def joinpath_def lower_def lower_char_def
  SUPPORTED_EXTENSIONS_def path_exists_def is_file_def

lemmas strip_simps = strip_def strip_leading.simps space_prefix_def whitespace_def

lemma strip_plain_names:
  "strip ''report.docx'' = ''report.docx''"
  "strip ''c.pdf'' = ''c.pdf''"
  "strip ''b.pdf'' = ''b.pdf''"
  by (simp_all add: strip_simps)

lemma path_already_listed_iff: "path_already_listed its p \<longleftrightarrow> p \<in> data ` set its"
  by (induction its) auto

lemma remdups_snoc: "remdups (xs @ [x]) = filter (\<lambda>y. y \<noteq> x) (remdups xs) @ [x]"
  by (induction xs) auto

lemma first_occurrences_Cons:
  "first_occurrences (x # xs) = x # filter (\<lambda>y. y \<noteq> x) (first_occurrences xs)"
  by (simp add: first_occurrences_def remdups_snoc rev_filter)

lemma first_occurrences_Nil: "first_occurrences [] = []"
  by (simp add: first_occurrences_def)

lemma add_loop_accepted:
  "add_loop fs ps (its, added) =
     (its @ map new_item (accepted fs its ps), added + length (accepted fs its ps))"
proof (induction ps arbitrary: its added)
  case Nil
  show ?case by (simp add: first_occurrences_Nil accepted_def)
next
  case (Cons p ps)
  show ?case
  proof (cases "eligible fs p \<and> p \<notin> data ` set its")
    case True
    have d: "data (new_item p) = p" by (simp add: new_item_def)
    have "[q \<leftarrow> first_occurrences ps. q \<noteq> p \<and> eligible fs q \<and> q \<notin> data ` set its]
        = [q \<leftarrow> first_occurrences ps. eligible fs q \<and> q \<notin> data ` set (its @ [new_item p])]"
      by (rule filter_cong) (auto simp: d)
    with True show ?thesis
      using Cons.IH [of "its @ [new_item p]" "added + 1"]
      by (simp add: accepted_def first_occurrences_Cons eligible_def path_already_listed_iff d
          conj_commute)
  next
    case False
    have "[q \<leftarrow> first_occurrences ps. q \<noteq> p \<and> eligible fs q \<and> q \<notin> data ` set its]
        = [q \<leftarrow> first_occurrences ps. eligible fs q \<and> q \<notin> data ` set its]"
      using False by (intro filter_cong) auto
    with False show ?thesis
      using Cons.IH [of its added]
      by (auto simp add: accepted_def first_occurrences_Cons eligible_def path_already_listed_iff)
  qed
qed

lemma accepted_Nil: "accepted fs its [] = []"
  by (simp add: accepted_def first_occurrences_Nil)

lemma accepted_single_skip:
  "\<not> is_file fs (Path p) \<or> lower (suffix (Path p)) \<notin> SUPPORTED_EXTENSIONS \<or> p \<in> data ` set its
   \<Longrightarrow> accepted fs its [p] = []"
  by (auto simp: accepted_def first_occurrences_def eligible_def)

text \<open>
  C8. A batch appends, in input order, exactly the paths that are regular files, have
  a supported extension (case-insensitive) and are not yet listed (exact string
  match, a repeated path of the batch counting once); every other path is skipped
  without a message box and leaves the list as it is; the count reported in the
  feedback label is the number of entries appended.
\<close>

theorem add_path_batch_spec:
  "file_list (add_path_batch fs paths w) =
     file_list w @ map new_item (accepted fs (file_list w) paths) \<and>
   dialogs (add_path_batch fs paths w) = dialogs w \<and>
   (paths \<noteq> [] \<longrightarrow>
      feedback (add_path_batch fs paths w) =
        (if length (accepted fs (file_list w) paths) \<noteq> 0
         then ''Added '' @ show_nat (length (accepted fs (file_list w) paths)) @ '' file(s).''
         else ''No new supported files were added.'')) \<and>
   (\<not> is_file fs (Path p) \<or> lower (suffix (Path p)) \<notin> SUPPORTED_EXTENSIONS \<or>
      p \<in> data ` set (file_list w) \<longrightarrow>
      file_list (add_path_batch fs [p] w) = file_list w)"
proof (intro conjI impI)
  show "file_list (add_path_batch fs paths w) =
     file_list w @ map new_item (accepted fs (file_list w) paths)"
    by (simp add: add_path_batch_def add_loop_accepted accepted_Nil)
  show "dialogs (add_path_batch fs paths w) = dialogs w"
    by (simp add: add_path_batch_def add_loop_accepted)
  show "feedback (add_path_batch fs paths w) =
        (if length (accepted fs (file_list w) paths) \<noteq> 0
         then ''Added '' @ show_nat (length (accepted fs (file_list w) paths)) @ '' file(s).''
         else ''No new supported files were added.'')" if "paths \<noteq> []"
    using that by (simp add: add_path_batch_def add_loop_accepted)
  show "file_list (add_path_batch fs [p] w) = file_list w"
    if "\<not> is_file fs (Path p) \<or> lower (suffix (Path p)) \<notin> SUPPORTED_EXTENSIONS \<or>
      p \<in> data ` set (file_list w)"
    using accepted_single_skip [OF that] by (simp add: add_path_batch_def add_loop_accepted)
qed

lemma ex_accepted:
  "accepted fs_docs [] [''/d/b.pdf'', ''/d/notes.txt'', ''/d/missing.pdf'', ''/d/b.pdf'', ''/d/a.pdf'']
     = [''/d/b.pdf'', ''/d/a.pdf'']"
  by (simp add: accepted_def first_occurrences_def eligible_def fs_docs_def path_simps)


theorem add_path_batch_spec_witness:
  "[''/d/b.pdf'', ''/d/notes.txt'', ''/d/missing.pdf'', ''/d/b.pdf'', ''/d/a.pdf''] \<noteq> [] \<and>
   file_list (add_path_batch fs_docs
      [''/d/b.pdf'', ''/d/notes.txt'', ''/d/missing.pdf'', ''/d/b.pdf'', ''/d/a.pdf''] w_empty) =
     [new_item ''/d/b.pdf'', new_item ''/d/a.pdf''] \<and>
   feedback (add_path_batch fs_docs
      [''/d/b.pdf'', ''/d/notes.txt'', ''/d/missing.pdf'', ''/d/b.pdf'', ''/d/a.pdf''] w_empty) =
     ''Added 2 file(s).'' \<and>
   lower (suffix (Path ''/d/notes.txt'')) \<notin> SUPPORTED_EXTENSIONS \<and>
   file_list (add_path_batch fs_docs [''/d/notes.txt''] w_empty) = file_list w_empty"
proof -
  have s: "lower (suffix (Path ''/d/notes.txt'')) \<notin> SUPPORTED_EXTENSIONS"
    by (simp add: path_simps)
  have n: "show_nat (Suc (Suc 0)) = ''2''"
    by (simp add: show_nat.simps digit_char_def)
  have w: "file_list w_empty = []"
    by (simp add: w_empty_def)
  show ?thesis
    using add_path_batch_spec [of fs_docs
        "[''/d/b.pdf'', ''/d/notes.txt'', ''/d/missing.pdf'', ''/d/b.pdf'', ''/d/a.pdf'']"
        w_empty "''/d/notes.txt''"] s
    by (simp add: ex_accepted w n)
qed

section \<open>Properties of conflict resolution\<close>

lemma digit_char_in_digits: "d < 10 \<Longrightarrow> digit_char d \<in> set ''0123456789''"
  unfolding digit_char_def by (rule nth_mem) simp

lemma show_nat_digits: "set (show_nat n) \<subseteq> set ''0123456789''"
proof (induction n rule: show_nat.induct)
  case (1 n)
  show ?case
  proof (cases "n < 10")
    case True
    then have "show_nat n = [digit_char n]" by (subst show_nat.simps) simp
    with True show ?thesis using digit_char_in_digits [of n] by simp
  next
    case False
    then have "show_nat n = show_nat (n div 10) @ [digit_char (n mod 10)]"
      by (subst show_nat.simps) simp
    with "1.IH" [OF False] show ?thesis
      using digit_char_in_digits [of "n mod 10"] by simp
  qed
qed

lemma slash_not_in_show_nat: "CHR ''/'' \<notin> set (show_nat n)"
  using show_nat_digits [of n] by auto

lemma set_stem_of_name: "set (stem_of_name n) \<subseteq> set n"
  by (auto simp: stem_of_name_def split: option.splits dest: in_set_takeD)

lemma set_suffix_of_name: "set (suffix_of_name n) \<subseteq> set n"
  by (auto simp: suffix_of_name_def split: option.splits dest: in_set_dropD)

lemma with_stem_valid:
  assumes "name p \<noteq> ''''" and "CHR ''/'' \<notin> set (name p)"
  shows "with_stem p (stem p @ ''_'' @ show_nat k) = Inr (candidate_path p k)"
proof -
  define n where "n = (stem p @ ''_'' @ show_nat k) @ suffix p"
  have "CHR ''/'' \<notin> set (stem p)" "CHR ''/'' \<notin> set (suffix p)"
    using assms(2) set_stem_of_name [of "name p"] set_suffix_of_name [of "name p"]
    by (auto simp: stem_def suffix_def)
  then have a: "CHR ''/'' \<notin> set n"
    using slash_not_in_show_nat [of k] by (simp add: n_def)
  have "length n \<ge> 2"
    using show_nat_nonempty [of k] by (cases "show_nat k") (simp_all add: n_def)
  then have b: "n \<noteq> ''''" "n \<noteq> ''.''" by auto
  from a b assms(1) have "with_name p n = Inr (p\<lparr>parts := butlast (parts p) @ [n]\<rparr>)"
    unfolding with_name_def by simp
  then show ?thesis
    unfolding with_stem_def candidate_path_def n_def by simp
qed

lemma resolve_loop_least:
  assumes "name p \<noteq> ''''" and "CHR ''/'' \<notin> set (name p)"
    and "c \<le> k" and "\<not> path_exists fs (candidate_path p k)"
    and "\<forall>j. c \<le> j \<and> j < k \<longrightarrow> path_exists fs (candidate_path p j)"
  shows "resolve_loop fs p c = Inr (candidate_path p k)"
  using assms(3,5)
proof (induction "k - c" arbitrary: c)
  case 0
  then have "c = k" by simp
  with assms(4) show ?case
    by (subst resolve_loop.simps) (simp add: with_stem_valid [OF assms(1,2), simplified])
next
  case (Suc d)
  then have lt: "c < k" by simp
  with Suc.prems have ex: "path_exists fs (candidate_path p c)" by simp
  have "resolve_loop fs p (c + 1) = Inr (candidate_path p k)"
    using Suc.hyps(2) Suc.prems lt by (intro Suc.hyps(1)) auto
  with ex show ?case
    by (subst resolve_loop.simps) (simp add: with_stem_valid [OF assms(1,2), simplified])
qed

lemma free_candidate_exists: "\<exists>k\<ge>1. \<not> path_exists fs (candidate_path p k)"
proof -
  have "finite ((\<lambda>k. str_of (candidate_path p k)) -` fmdom' fs)"
    by (intro finite_vimageI inj_str_of_candidate) simp
  then have "finite (insert 0 ((\<lambda>k. str_of (candidate_path p k)) -` fmdom' fs))" by simp
  then obtain k where k: "k \<notin> insert 0 ((\<lambda>k. str_of (candidate_path p k)) -` fmdom' fs)"
    using ex_new_if_finite [OF infinite_UNIV_nat] by blast
  then have "k \<ge> 1" by simp
  moreover from k have "str_of (candidate_path p k) \<notin> fmdom' fs" by simp
  then have "\<not> path_exists fs (candidate_path p k)"
    by (auto simp: path_exists_def dest: fmdom'_notD)
  ultimately show ?thesis by blast
qed

lemma split_on_no_sep: "w \<in> set (split_on c s) \<Longrightarrow> c \<notin> set w"
  by (induction s arbitrary: w) (auto split: if_splits list.splits)

lemma name_Path_no_slash: "CHR ''/'' \<notin> set (name (Path s))"
proof (cases "parts (Path s) = []")
  case True
  then show ?thesis by (simp add: name_def)
next
  case False
  then have "last (parts (Path s)) \<in> set (parts (Path s))" by simp
  then have "last (parts (Path s)) \<in> set (split_on (CHR ''/'') s)" by (simp add: Path_def)
  with False show ?thesis by (simp add: name_def split_on_no_sep)
qed

text \<open>
  C6. If nothing exists at the candidate path, it is returned unchanged. Otherwise
  (for a path with a file name, as every path of \<open>pathlib\<close> with a last component
  is) the result is the path with \<open>_k\<close> appended to the stem and the extension
  kept, for the smallest \<open>k \<ge> 1\<close> at which nothing exists; when \<open>name.jpg\<close> and
  \<open>name_1.jpg\<close> exist and \<open>name_2.jpg\<close> does not, it is \<open>name_2.jpg\<close>. The loop is
  a total function here: it always returns.
\<close>

theorem resolve_conflict_path_spec:
  "(\<not> path_exists fs p \<longrightarrow> resolve_conflict_path fs p = Inr p) \<and>
   (path_exists fs p \<and> name p \<noteq> '''' \<and> CHR ''/'' \<notin> set (name p) \<longrightarrow>
      (\<exists>k\<ge>1. resolve_conflict_path fs p = Inr (candidate_path p k) \<and>
              \<not> path_exists fs (candidate_path p k) \<and>
              (\<forall>j. 1 \<le> j \<and> j < k \<longrightarrow> path_exists fs (candidate_path p j)))) \<and>
   (path_exists fs p \<and> name p \<noteq> '''' \<and> CHR ''/'' \<notin> set (name p) \<and>
    path_exists fs (candidate_path p 1) \<and> \<not> path_exists fs (candidate_path p 2) \<longrightarrow>
      resolve_conflict_path fs p = Inr (candidate_path p 2))"
proof (intro conjI impI)
  assume "\<not> path_exists fs p"
  then show "resolve_conflict_path fs p = Inr p"
    by (simp add: resolve_conflict_path_def)
next
  assume a: "path_exists fs p \<and> name p \<noteq> '''' \<and> CHR ''/'' \<notin> set (name p)"
  let ?P = "\<lambda>k. 1 \<le> k \<and> \<not> path_exists fs (candidate_path p k)"
  from free_candidate_exists [of fs p] have "\<exists>k. ?P k" by blast
  then obtain k where k: "?P k" and least: "\<forall>j<k. \<not> ?P j"
    using exists_least_iff [of ?P] by blast
  from least have all: "\<forall>j. 1 \<le> j \<and> j < k \<longrightarrow> path_exists fs (candidate_path p j)"
    by blast
  have "resolve_loop fs p 1 = Inr (candidate_path p k)"
    using a k all by (intro resolve_loop_least) auto
  with a k all show "\<exists>k\<ge>1. resolve_conflict_path fs p = Inr (candidate_path p k) \<and>
              \<not> path_exists fs (candidate_path p k) \<and>
              (\<forall>j. 1 \<le> j \<and> j < k \<longrightarrow> path_exists fs (candidate_path p j))"
    unfolding resolve_conflict_path_def by auto
next
  assume a: "path_exists fs p \<and> name p \<noteq> '''' \<and> CHR ''/'' \<notin> set (name p) \<and>
    path_exists fs (candidate_path p 1) \<and> \<not> path_exists fs (candidate_path p 2)"
  have "\<forall>j. 1 \<le> j \<and> j < 2 \<longrightarrow> path_exists fs (candidate_path p j)"
  proof (intro allI impI)
    fix j :: nat
    assume "1 \<le> j \<and> j < 2"
    then have "j = 1" by simp
    with a show "path_exists fs (candidate_path p j)" by simp
  qed
  then have "resolve_loop fs p 1 = Inr (candidate_path p 2)"
    using a by (intro resolve_loop_least) auto
  with a show "resolve_conflict_path fs p = Inr (candidate_path p 2)"
    by (simp add: resolve_conflict_path_def)
qed

lemma name_jpg_facts:
  "path_exists fs_two (Path ''/out/name.jpg'')"
  "name (Path ''/out/name.jpg'') = ''name.jpg''"
  "candidate_path (Path ''/out/name.jpg'') 1 = Path ''/out/name_1.jpg''"
  "candidate_path (Path ''/out/name.jpg'') (Suc 0) = Path ''/out/name_1.jpg''"
  "candidate_path (Path ''/out/name.jpg'') 2 = Path ''/out/name_2.jpg''"
  "path_exists fs_two (Path ''/out/name_1.jpg'')"
  "\<not> path_exists fs_two (Path ''/out/name_2.jpg'')"
  by (simp_all add: fs_two_def candidate_path_def show_nat.simps digit_char_def path_simps)

theorem resolve_conflict_path_spec_witness:
  "\<not> path_exists fs_two (Path ''/out/name_2.jpg'') \<and>
   resolve_conflict_path fs_two (Path ''/out/name_2.jpg'') = Inr (Path ''/out/name_2.jpg'') \<and>
   path_exists fs_two (Path ''/out/name.jpg'') \<and>
   path_exists fs_two (Path ''/out/name_1.jpg'') \<and>
   resolve_conflict_path fs_two (Path ''/out/name.jpg'') = Inr (Path ''/out/name_2.jpg'')"
  using resolve_conflict_path_spec [of fs_two "Path ''/out/name_2.jpg''"]
    resolve_conflict_path_spec [of fs_two "Path ''/out/name.jpg''"]
  by (simp add: name_jpg_facts)

section \<open>Properties of renaming\<close>

text \<open>
  C7. A rename whose new name (as typed, stripped) carries an extension outside the
  supported set, compared case-insensitively, ends with the error Unsupported
  extension and leaves the file system and the list of entries as they are; and when
  \<open>os.rename\<close> raises, the rename ends with the error Failed to rename file and
  leaves the list of entries (and the file system) as they are.
\<close>

theorem rename_item_failures:
  "(row < length (file_list w) \<and> ok \<and> strip typed \<noteq> '''' \<and>
    lower (suffix (Path (strip typed))) \<noteq> '''' \<and>
    lower (suffix (Path (strip typed))) \<notin> SUPPORTED_EXTENSIONS \<longrightarrow>
      rename_item_inline e (typed, ok) overwrite row (w, fs) =
        (UnsupportedExtension,
         show_error ''Unsupported extension. Keep the file as PDF, TIF, TIFF, or JPG.'' w, fs) \<and>
      file_list (fst (snd (rename_item_inline e (typed, ok) overwrite row (w, fs)))) = file_list w) \<and>
   (row < length (file_list w) \<and> ok \<and> strip typed \<noteq> '''' \<and>
    (lower (suffix (Path (strip typed))) = '''' \<or>
     lower (suffix (Path (strip typed))) \<in> SUPPORTED_EXTENSIONS) \<and>
    with_name (Path (data (file_list w ! row))) (requested_name (file_list w ! row) typed) = Inr target \<and>
    (path_exists fs target \<longrightarrow> overwrite) \<and>
    os_rename e (Path (data (file_list w ! row))) target fs = Inl x \<longrightarrow>
      rename_item_inline e (typed, ok) overwrite row (w, fs) =
        (RenameFailed, show_error (''Failed to rename file: '' @ exn_msg x) w, fs) \<and>
      file_list (fst (snd (rename_item_inline e (typed, ok) overwrite row (w, fs)))) = file_list w)"
proof (intro conjI impI)
  assume a: "row < length (file_list w) \<and> ok \<and> strip typed \<noteq> '''' \<and>
    lower (suffix (Path (strip typed))) \<noteq> '''' \<and>
    lower (suffix (Path (strip typed))) \<notin> SUPPORTED_EXTENSIONS"
  then show r: "rename_item_inline e (typed, ok) overwrite row (w, fs) =
        (UnsupportedExtension,
         show_error ''Unsupported extension. Keep the file as PDF, TIF, TIFF, or JPG.'' w, fs)"
    by (simp add: rename_item_inline_def rename_item_def Let_def show_error_def)
  show "file_list (fst (snd (rename_item_inline e (typed, ok) overwrite row (w, fs)))) = file_list w"
    by (simp add: r show_error_def)
next
  assume a: "row < length (file_list w) \<and> ok \<and> strip typed \<noteq> '''' \<and>
    (lower (suffix (Path (strip typed))) = '''' \<or>
     lower (suffix (Path (strip typed))) \<in> SUPPORTED_EXTENSIONS) \<and>
    with_name (Path (data (file_list w ! row))) (requested_name (file_list w ! row) typed) = Inr target \<and>
    (path_exists fs target \<longrightarrow> overwrite) \<and>
    os_rename e (Path (data (file_list w ! row))) target fs = Inl x"
  then show r: "rename_item_inline e (typed, ok) overwrite row (w, fs) =
        (RenameFailed, show_error (''Failed to rename file: '' @ exn_msg x) w, fs)"
    by (auto simp add: rename_item_inline_def rename_item_def requested_name_def Let_def
        show_error_def)
  show "file_list (fst (snd (rename_item_inline e (typed, ok) overwrite row (w, fs)))) = file_list w"
    by (simp add: r show_error_def)
qed

lemma rename_docx_facts:
  "strip ''report.docx'' = ''report.docx''"
  "lower (suffix (Path ''report.docx'')) = ''.docx''"
  "''.docx'' \<notin> SUPPORTED_EXTENSIONS"
  by (simp_all add: strip_plain_names path_simps)

lemma rename_denied_facts:
  "strip ''c.pdf'' = ''c.pdf''"
  "lower (suffix (Path ''c.pdf'')) = ''.pdf''"
  "''.pdf'' \<in> SUPPORTED_EXTENSIONS"
  "file_list w_ab ! 0 = \<lparr>text_of = ''a.pdf'', data = ''/d/a.pdf'', selected = True\<rparr>"
  "length (file_list w_ab) = 2"
  "requested_name \<lparr>text_of = ''a.pdf'', data = ''/d/a.pdf'', selected = True\<rparr> ''c.pdf'' = ''c.pdf''"
  "with_name (Path ''/d/a.pdf'') ''c.pdf'' = Inr (Path ''/d/c.pdf'')"
  "\<not> path_exists fs_docs (Path ''/d/c.pdf'')"
  "os_rename env_denied (Path ''/d/a.pdf'') (Path ''/d/c.pdf'') fs_docs
     = Inl (OSError ''Permission denied'')"
  by (simp_all add: strip_plain_names path_simps requested_name_def w_ab_def fs_docs_def
      os_rename_def env_denied_def env_ok_def)

lemma strip_unicode_space:
  "strip typed_nbsp = ''c.pdf''"
  "strip typed_wide = ''report.docx''"
  "strip typed_blank = ''''"
  by (simp_all add: typed_nbsp_def typed_wide_def typed_blank_def strip_simps)

theorem rename_item_failures_witness:
  "lower (suffix (Path (strip ''report.docx''))) \<notin> SUPPORTED_EXTENSIONS \<and>
   rename_item_inline env_ok (''report.docx'', True) False 0 (w_ab, fs_docs) =
     (UnsupportedExtension,
      show_error ''Unsupported extension. Keep the file as PDF, TIF, TIFF, or JPG.'' w_ab, fs_docs) \<and>
   os_rename env_denied (Path ''/d/a.pdf'') (Path ''/d/c.pdf'') fs_docs
     = Inl (OSError ''Permission denied'') \<and>
   rename_item_inline env_denied (''c.pdf'', True) False 0 (w_ab, fs_docs) =
     (RenameFailed, show_error ''Failed to rename file: Permission denied'' w_ab, fs_docs) \<and>
   lower (suffix (Path (strip typed_wide))) \<notin> SUPPORTED_EXTENSIONS \<and>
   rename_item_inline env_ok (typed_wide, True) False 0 (w_ab, fs_docs) =
     (UnsupportedExtension,
      show_error ''Unsupported extension. Keep the file as PDF, TIF, TIFF, or JPG.'' w_ab, fs_docs) \<and>
   rename_item_inline env_denied (typed_nbsp, True) False 0 (w_ab, fs_docs) =
     (RenameFailed, show_error ''Failed to rename file: Permission denied'' w_ab, fs_docs)"
  using rename_item_failures [of 0 w_ab True "''report.docx''" env_ok False fs_docs]
    rename_item_failures [where row = 0 and w = w_ab and ok = True and typed = "''c.pdf''"
      and target = "Path ''/d/c.pdf''" and overwrite = False and fs = fs_docs and e = env_denied
      and x = "OSError ''Permission denied''"]
    rename_item_failures [of 0 w_ab True typed_wide env_ok False fs_docs]
    rename_item_failures [where row = 0 and w = w_ab and ok = True and typed = typed_nbsp
      and target = "Path ''/d/c.pdf''" and overwrite = False and fs = fs_docs and e = env_denied
      and x = "OSError ''Permission denied''"]
  by (simp add: rename_docx_facts rename_denied_facts strip_unicode_space requested_name_def)

text \<open>
  White space beyond ASCII is stripped as \<open>str.strip\<close> strips it: \<open>c.pdf\<close> followed
  by a no-break space is the name \<open>c.pdf\<close> and the file is renamed; a name of white
  space only cancels the rename.
\<close>

lemma rename_strips_unicode_space:
  "fst (rename_item_inline env_ok (typed_nbsp, True) False 0 (w_ab, fs_docs)) = Renamed \<and>
   map data (file_list (fst (snd
     (rename_item_inline env_ok (typed_nbsp, True) False 0 (w_ab, fs_docs)))))
     = [''/d/c.pdf'', ''/d/b.pdf''] \<and>
   fst (rename_item_inline env_ok (typed_wide, True) False 0 (w_ab, fs_docs))
     = UnsupportedExtension \<and>
   fst (rename_item_inline env_ok (typed_blank, True) False 0 (w_ab, fs_docs)) = Cancelled"
  by (simp add: rename_item_inline_def rename_item_def os_rename_def strip_unicode_space
      show_error_def w_ab_def fs_docs_def env_ok_def path_simps Let_def)

section \<open>Properties of the export\<close>

lemma export_loop_isolated:
  "list_all (\<lambda>r. \<not> missing_dependency r) (export_outcomes e output_dir paths fs) \<Longrightarrow>
   export_loop e output_dir paths (exported_files, issues, fs) =
     Inr (exported_files + sum_list (map outputs_of (export_outcomes e output_dir paths fs)),
          issues @ concat (map issue_of (export_outcomes e output_dir paths fs)),
          export_fs e output_dir paths fs)"
proof (induction paths arbitrary: exported_files issues fs)
  case Nil
  show ?case by simp
next
  case (Cons p ps)
  obtain r fs' where c: "convert_file_to_jpg e p output_dir fs = (r, fs')"
    by (cases "convert_file_to_jpg e p output_dir fs")
  from Cons.prems c have nm: "\<not> missing_dependency (p, r)"
    and rest: "list_all (\<lambda>r. \<not> missing_dependency r) (export_outcomes e output_dir ps fs')"
    by simp_all
  show ?case
  proof (cases r)
    case (Inr n)
    with c Cons.IH [OF rest, of "exported_files + n" issues] show ?thesis
      by (simp add: add.assoc)
  next
    case (Inl x)
    with nm c Cons.IH [OF rest, of exported_files "issues @ [name (Path p) @ '': '' @ exn_msg x]"]
    show ?thesis
      by (cases x) simp_all
  qed
qed

text \<open>
  C1, amended. In a run where no conversion raises a missing-dependency error
  (\<open>ImportError\<close>), every path is processed, each on the file system the previous
  one leaves: a failing file appends exactly one string "name: message" to the
  issues and adds nothing to the count, and the exported count is the sum of the
  outputs of the files that do not fail.
\<close>

theorem export_isolates_failures:
  "list_all (\<lambda>r. \<not> missing_dependency r) (export_outcomes e output_dir paths fs) \<Longrightarrow>
   export_loop e output_dir paths (0, [], fs) =
     Inr (sum_list (map outputs_of (export_outcomes e output_dir paths fs)),
          concat (map issue_of (export_outcomes e output_dir paths fs)),
          export_fs e output_dir paths fs) \<and>
   map fst (export_outcomes e output_dir paths fs) = paths"
proof
  assume "list_all (\<lambda>r. \<not> missing_dependency r) (export_outcomes e output_dir paths fs)"
  then show "export_loop e output_dir paths (0, [], fs) =
     Inr (sum_list (map outputs_of (export_outcomes e output_dir paths fs)),
          concat (map issue_of (export_outcomes e output_dir paths fs)),
          export_fs e output_dir paths fs)"
    using export_loop_isolated [of e output_dir paths fs 0 "[]"] by simp
  show "map fst (export_outcomes e output_dir paths fs) = paths"
    by (induction paths arbitrary: fs) simp_all
qed

lemmas export_simps = convert_file_to_jpg_def convert_pdf_to_jpg_def convert_tiff_to_jpg_def
  copy_jpg_to_output_def resolve_conflict_path_def write_file_def copy2_def pad3_def
  show_nat.simps digit_char_def eval_nat_numeral

lemma conv_x: "convert_file_to_jpg env_ok ''/in/x.pdf'' (Path ''/out'') fs_in =
   (Inr 2, fmupd ''/out/x_page002.jpg'' (RegularFile ''X'')
            (fmupd ''/out/x_page001.jpg'' (RegularFile ''X'') fs_in))"
  by (simp add: export_simps path_simps env_ok_def fs_in_def)

lemma conv_bad: "convert_file_to_jpg env_ok ''/in/bad.tif'' (Path ''/out'')
     (fmupd ''/out/x_page002.jpg'' (RegularFile ''X'')
            (fmupd ''/out/x_page001.jpg'' (RegularFile ''X'') fs_in)) =
   (Inl (Exception ''cannot identify image file''),
    fmupd ''/out/x_page002.jpg'' (RegularFile ''X'')
            (fmupd ''/out/x_page001.jpg'' (RegularFile ''X'') fs_in))"
  by (simp add: export_simps path_simps env_ok_def fs_in_def)

lemma conv_nofitz: "convert_file_to_jpg env_nofitz ''/in/x.pdf'' (Path ''/out'') fs_in =
   (Inl (ImportError ''PyMuPDF is required to export PDF pages to JPG''), fs_in)"
  by (simp add: export_simps path_simps env_nofitz_def env_ok_def)

text \<open>
  C1, without that restriction, fails: when the conversion of a file raises \<open>ImportError\<close>, no issue
  is appended and the paths after it are not processed.
\<close>

theorem export_missing_dependency_counterexample:
  "export_loop env_nofitz (Path ''/out'') [''/in/x.pdf'', ''/in/b.jpg''] (0, [], fs_in) =
     Inl (''PyMuPDF is required to export PDF pages to JPG'', fs_in)"
  by (simp add: conv_nofitz)


lemma outcomes_x_bad:
  "export_outcomes env_ok (Path ''/out'') [''/in/x.pdf'', ''/in/bad.tif''] fs_in =
     [(''/in/x.pdf'', Inr 2), (''/in/bad.tif'', Inl (Exception ''cannot identify image file''))]"
  by (simp add: conv_x conv_bad)

lemma export_fs_x_bad:
  "export_fs env_ok (Path ''/out'') [''/in/x.pdf'', ''/in/bad.tif''] fs_in =
     fmupd ''/out/x_page002.jpg'' (RegularFile ''X'')
       (fmupd ''/out/x_page001.jpg'' (RegularFile ''X'') fs_in)"
  by (simp add: conv_x conv_bad)

lemma name_bad_tif: "name (Path ''/in/bad.tif'') = ''bad.tif''"
  by (simp add: path_simps)

theorem export_isolates_failures_witness:
  "list_all (\<lambda>r. \<not> missing_dependency r)
     (export_outcomes env_ok (Path ''/out'') [''/in/x.pdf'', ''/in/bad.tif''] fs_in) \<and>
   export_loop env_ok (Path ''/out'') [''/in/x.pdf'', ''/in/bad.tif''] (0, [], fs_in) =
     Inr (2, [''bad.tif: cannot identify image file''],
          fmupd ''/out/x_page002.jpg'' (RegularFile ''X'')
            (fmupd ''/out/x_page001.jpg'' (RegularFile ''X'') fs_in))"
proof -
  have h: "list_all (\<lambda>r. \<not> missing_dependency r)
     (export_outcomes env_ok (Path ''/out'') [''/in/x.pdf'', ''/in/bad.tif''] fs_in)"
    unfolding outcomes_x_bad by simp
  have "export_loop env_ok (Path ''/out'') [''/in/x.pdf'', ''/in/bad.tif''] (0, [], fs_in) =
     Inr (2, [''bad.tif: cannot identify image file''],
          fmupd ''/out/x_page002.jpg'' (RegularFile ''X'')
            (fmupd ''/out/x_page001.jpg'' (RegularFile ''X'') fs_in))"
    using export_isolates_failures [OF h]
    unfolding outcomes_x_bad export_fs_x_bad by (simp add: name_bad_tif)
  with h show ?thesis by blast
qed

text \<open>The converters only add files: what exists stays, with its content.\<close>

lemma fmsubset_iff:
  "m \<subseteq>\<^sub>f n \<longleftrightarrow> (\<forall>k v. fmlookup m k = Some v \<longrightarrow> fmlookup n k = Some v)"
  by (simp add: fmsubset_alt_def fmpred_iff)

lemma fmsubset_refl: "m \<subseteq>\<^sub>f m"
  by (simp add: fmsubset_iff)

lemma fmsubset_trans: "m \<subseteq>\<^sub>f n \<Longrightarrow> n \<subseteq>\<^sub>f k \<Longrightarrow> m \<subseteq>\<^sub>f k"
  by (simp add: fmsubset_iff)

lemma resolve_loop_not_exists: "resolve_loop fs p c = Inr q \<Longrightarrow> \<not> path_exists fs q"
proof (induction fs p c rule: resolve_loop.induct)
  case (1 fs p counter)
  show ?case
  proof (cases "with_stem p (stem p @ ''_'' @ show_nat counter)")
    case (Inl x)
    with "1.prems" show ?thesis by (subst (asm) resolve_loop.simps) simp
  next
    case (Inr cand)
    show ?thesis
    proof (cases "path_exists fs cand")
      case True
      with Inr "1.prems" have "resolve_loop fs p (counter + 1) = Inr q"
        by (subst (asm) resolve_loop.simps) simp
      with "1.IH" [OF Inr] True show ?thesis by simp
    next
      case False
      with Inr "1.prems" have "q = cand"
        by (subst (asm) resolve_loop.simps) simp
      with False show ?thesis by simp
    qed
  qed
qed

lemma resolve_conflict_path_not_exists:
  "resolve_conflict_path fs p = Inr q \<Longrightarrow> \<not> path_exists fs q"
  by (auto simp: resolve_conflict_path_def dest: resolve_loop_not_exists split: if_splits)

lemma write_file_new:
  "write_file e q d fs = Inr fs' \<Longrightarrow> \<not> path_exists fs q \<Longrightarrow> fs \<subseteq>\<^sub>f fs'"
  by (auto simp: write_file_def path_exists_def fmsubset_iff split: option.splits)

lemma pdf_pages_loop_extends:
  "fs \<subseteq>\<^sub>f snd (pdf_pages_loop e p output_dir pages index (exported, fs))"
proof (induction pages arbitrary: index exported fs)
  case Nil
  show ?case by (simp add: fmsubset_refl)
next
  case (Cons page pages)
  show ?case
  proof (cases page)
    case (Inl x)
    then show ?thesis by (simp add: fmsubset_refl)
  next
    case (Inr pixmap)
    show ?thesis
    proof (cases "resolve_conflict_path fs
        (joinpath output_dir (stem (Path p) @ ''_page'' @ pad3 index @ ''.jpg''))")
      case (Inl x)
      with Inr show ?thesis by (simp add: fmsubset_refl)
    next
      case target: (Inr target)
      show ?thesis
      proof (cases "write_file e target pixmap fs")
        case (Inl x)
        with Inr target show ?thesis by (simp add: fmsubset_refl)
      next
        case fs': (Inr fs')
        from write_file_new [OF fs' resolve_conflict_path_not_exists [OF target]]
        have "fs \<subseteq>\<^sub>f fs'" .
        moreover have "fs' \<subseteq>\<^sub>f snd (pdf_pages_loop e p output_dir pages (index + 1) (exported + 1, fs'))"
          by (rule Cons.IH)
        ultimately show ?thesis
          using Inr target fs' by (simp add: fmsubset_trans)
      qed
    qed
  qed
qed

lemma tiff_frames_loop_extends:
  "fs \<subseteq>\<^sub>f snd (tiff_frames_loop e p output_dir frames index (exported, fs))"
proof (induction frames arbitrary: index exported fs)
  case Nil
  show ?case by (simp add: fmsubset_refl)
next
  case (Cons frame frames)
  show ?case
  proof (cases frame)
    case (Inl x)
    then show ?thesis by (simp add: fmsubset_refl)
  next
    case (Inr rgb)
    show ?thesis
    proof (cases "resolve_conflict_path fs
        (joinpath output_dir (stem (Path p) @ ''_frame'' @ pad3 index @ ''.jpg''))")
      case (Inl x)
      with Inr show ?thesis by (simp add: fmsubset_refl)
    next
      case target: (Inr target)
      show ?thesis
      proof (cases "write_file e target rgb fs")
        case (Inl x)
        with Inr target show ?thesis by (simp add: fmsubset_refl)
      next
        case fs': (Inr fs')
        from write_file_new [OF fs' resolve_conflict_path_not_exists [OF target]]
        have "fs \<subseteq>\<^sub>f fs'" .
        moreover have "fs' \<subseteq>\<^sub>f snd (tiff_frames_loop e p output_dir frames (index + 1) (exported + 1, fs'))"
          by (rule Cons.IH)
        ultimately show ?thesis
          using Inr target fs' by (simp add: fmsubset_trans)
      qed
    qed
  qed
qed

lemma copy_jpg_to_output_extends: "fs \<subseteq>\<^sub>f snd (copy_jpg_to_output e p output_dir fs)"
proof (cases "resolve_conflict_path fs (joinpath output_dir (name (Path p)))")
  case (Inl x)
  then show ?thesis by (simp add: copy_jpg_to_output_def fmsubset_refl)
next
  case target: (Inr target)
  show ?thesis
  proof (cases "copy2 e (Path p) target fs")
    case (Inl x)
    with target show ?thesis by (simp add: copy_jpg_to_output_def fmsubset_refl)
  next
    case (Inr fs')
    then obtain d where "write_file e target d fs = Inr fs'"
      by (auto simp: copy2_def split: option.splits node.splits)
    from write_file_new [OF this resolve_conflict_path_not_exists [OF target]]
    show ?thesis using target Inr by (simp add: copy_jpg_to_output_def)
  qed
qed

lemma convert_file_to_jpg_extends: "fs \<subseteq>\<^sub>f snd (convert_file_to_jpg e p output_dir fs)"
  by (auto simp: convert_file_to_jpg_def convert_pdf_to_jpg_def convert_tiff_to_jpg_def Let_def
      fmsubset_refl pdf_pages_loop_extends tiff_frames_loop_extends copy_jpg_to_output_extends
      split: sum.splits)

lemma export_loop_extends:
  "export_loop e output_dir paths (c, iss, fs) = Inr (c1, iss1, fs1) \<Longrightarrow> fs \<subseteq>\<^sub>f fs1"
proof (induction paths arbitrary: c iss fs)
  case Nil
  then show ?case by (simp add: fmsubset_refl)
next
  case (Cons q qs)
  obtain r fs' where cq: "convert_file_to_jpg e q output_dir fs = (r, fs')"
    by (cases "convert_file_to_jpg e q output_dir fs")
  with convert_file_to_jpg_extends [of fs e q output_dir] have s: "fs \<subseteq>\<^sub>f fs'" by simp
  show ?case
  proof (cases r)
    case (Inr n)
    with cq Cons.prems have "export_loop e output_dir qs (c + n, iss, fs') = Inr (c1, iss1, fs1)"
      by simp
    from Cons.IH [OF this] s show ?thesis by (rule fmsubset_trans [rotated])
  next
    case (Inl x)
    with cq Cons.prems
    have "export_loop e output_dir qs (c, iss @ [name (Path q) @ '': '' @ exn_msg x], fs')
        = Inr (c1, iss1, fs1)"
      by (cases x) simp_all
    from Cons.IH [OF this] s show ?thesis by (rule fmsubset_trans [rotated])
  qed
qed

lemma export_loop_append_abort:
  "export_loop e output_dir pre (c, iss, fs) = Inr (c1, iss1, fs1) \<Longrightarrow>
   convert_file_to_jpg e p output_dir fs1 = (Inl (ImportError m), fs2) \<Longrightarrow>
   export_loop e output_dir (pre @ p # rest) (c, iss, fs) = Inl (m, fs2)"
proof (induction pre arbitrary: c iss fs)
  case Nil
  then show ?case by simp
next
  case (Cons q qs)
  obtain r fs' where cq: "convert_file_to_jpg e q output_dir fs = (r, fs')"
    by (cases "convert_file_to_jpg e q output_dir fs")
  show ?case
  proof (cases r)
    case (Inr n)
    with cq Cons.prems Cons.IH [of "c + n" iss fs'] show ?thesis by simp
  next
    case (Inl x)
    with cq Cons.prems Cons.IH [of c "iss @ [name (Path q) @ '': '' @ exn_msg x]" fs']
    show ?thesis by (cases x) simp_all
  qed
qed

text \<open>
  C10. When the conversion of a file raises \<open>ImportError\<close>, the run ends there:
  whatever paths follow, the only report is the error box Missing dependency (no
  count, no list of issues), and the file system is the one the conversions so far
  have left, in which every file that existed before the run or was written for an
  earlier input is still present.
\<close>

theorem export_stops_on_missing_dependency:
  "gather_paths w = pre @ p # rest \<and> destination \<noteq> '''' \<and>
   export_loop e (Path destination) pre (0, [], fs) = Inr (c1, iss1, fs1) \<and>
   convert_file_to_jpg e p (Path destination) fs1 = (Inl (ImportError m), fs2) \<longrightarrow>
     export_to_jpg e destination (w, fs) =
       (w\<lparr>dialogs := dialogs w @
            [Critical (''Missing dependency: '' @ m @
                       ''. Install the required package and try again.'')],
          feedback := ''Missing dependency: '' @ m @
                       ''. Install the required package and try again.''\<rparr>,
        fs2) \<and>
     fs \<subseteq>\<^sub>f fs1 \<and> fs1 \<subseteq>\<^sub>f fs2"
proof (intro impI conjI)
  assume a: "gather_paths w = pre @ p # rest \<and> destination \<noteq> '''' \<and>
   export_loop e (Path destination) pre (0, [], fs) = Inr (c1, iss1, fs1) \<and>
   convert_file_to_jpg e p (Path destination) fs1 = (Inl (ImportError m), fs2)"
  then have "export_loop e (Path destination) (pre @ p # rest) (0, [], fs) = Inl (m, fs2)"
    by (intro export_loop_append_abort) auto
  with a show "export_to_jpg e destination (w, fs) =
       (w\<lparr>dialogs := dialogs w @
            [Critical (''Missing dependency: '' @ m @
                       ''. Install the required package and try again.'')],
          feedback := ''Missing dependency: '' @ m @
                       ''. Install the required package and try again.''\<rparr>,
        fs2)"
    by (simp add: export_to_jpg_def show_error_def Let_def)
  from a show "fs \<subseteq>\<^sub>f fs1"
    by (auto dest: export_loop_extends)
  from a convert_file_to_jpg_extends [of fs1 e p "Path destination"] show "fs1 \<subseteq>\<^sub>f fs2"
    by simp
qed

lemma conv_x_nopillow: "convert_file_to_jpg env_nopillow ''/in/x.pdf'' (Path ''/out'') fs_in =
   (Inr 2, fmupd ''/out/x_page002.jpg'' (RegularFile ''X'')
            (fmupd ''/out/x_page001.jpg'' (RegularFile ''X'') fs_in))"
  by (simp add: export_simps path_simps env_nopillow_def env_ok_def fs_in_def)

lemma conv_bad_nopillow: "convert_file_to_jpg env_nopillow ''/in/bad.tif'' (Path ''/out'') fs =
   (Inl (ImportError ''Pillow is required to export TIFF frames to JPG''), fs)"
  by (simp add: export_simps path_simps env_nopillow_def env_ok_def)

theorem export_stops_on_missing_dependency_witness:
  "gather_paths w_export = [''/in/x.pdf''] @ ''/in/bad.tif'' # [''/in/b.jpg''] \<and>
   export_loop env_nopillow (Path ''/out'') [''/in/x.pdf''] (0, [], fs_in) =
     Inr (2, [], fmupd ''/out/x_page002.jpg'' (RegularFile ''X'')
                   (fmupd ''/out/x_page001.jpg'' (RegularFile ''X'') fs_in)) \<and>
   export_to_jpg env_nopillow ''/out'' (w_export, fs_in) =
     (w_export\<lparr>dialogs :=
          [Critical ''Missing dependency: Pillow is required to export TIFF frames to JPG. Install the required package and try again.''],
        feedback := ''Missing dependency: Pillow is required to export TIFF frames to JPG. Install the required package and try again.''\<rparr>,
      fmupd ''/out/x_page002.jpg'' (RegularFile ''X'')
        (fmupd ''/out/x_page001.jpg'' (RegularFile ''X'') fs_in))"
proof -
  have g: "gather_paths w_export = [''/in/x.pdf''] @ ''/in/bad.tif'' # [''/in/b.jpg'']"
    by (simp add: gather_paths_def w_export_def)
  have l: "export_loop env_nopillow (Path ''/out'') [''/in/x.pdf''] (0, [], fs_in) =
     Inr (2, [], fmupd ''/out/x_page002.jpg'' (RegularFile ''X'')
                   (fmupd ''/out/x_page001.jpg'' (RegularFile ''X'') fs_in))"
    by (simp add: conv_x_nopillow)
  have d: "dialogs w_export = []" by (simp add: w_export_def)
  show ?thesis
    using export_stops_on_missing_dependency [where w = w_export and pre = "[''/in/x.pdf'']"
        and p = "''/in/bad.tif''" and rest = "[''/in/b.jpg'']" and destination = "''/out''"
        and e = env_nopillow and fs = fs_in and ?c1.0 = 2 and ?iss1.0 = "[]"
        and ?fs1.0 = "fmupd ''/out/x_page002.jpg'' (RegularFile ''X'')
                   (fmupd ''/out/x_page001.jpg'' (RegularFile ''X'') fs_in)"
        and m = "''Pillow is required to export TIFF frames to JPG''"
        and ?fs2.0 = "fmupd ''/out/x_page002.jpg'' (RegularFile ''X'')
                   (fmupd ''/out/x_page001.jpg'' (RegularFile ''X'') fs_in)"]
      g l conv_bad_nopillow
    by (simp add: d)
qed

section \<open>Properties of the merge\<close>

lemmas merge_simps = merge_into_pdf_def merge_try_def write_output_def convert_image_to_pdf_def
  convert_tiff_to_pdf_def named_temporary_file_def write_file_def os_unlink_def

lemma os_unlink_cases:
  assumes "unlink_fault e (str_of (Path t)) = None"
    and "fmlookup fs (str_of (Path t)) \<noteq> Some Directory"
  shows "(\<exists>m. os_unlink e (Path t) fs = Inl (FileNotFoundError m)) \<or>
         os_unlink e (Path t) fs = Inr (fmdrop (str_of (Path t)) fs)"
  using assms by (auto simp: os_unlink_def split: option.splits node.splits)

lemma fmsubset_lookup_None: "m \<subseteq>\<^sub>f n \<Longrightarrow> fmlookup n k = None \<Longrightarrow> fmlookup m k = None"
  by (metis fmsubset_iff not_Some_eq)

lemma cleanup_no_fault:
  "\<forall>t\<in>set ts. unlink_fault e (str_of (Path t)) = None \<and>
               fmlookup fs (str_of (Path t)) \<noteq> Some Directory \<Longrightarrow>
   fst (cleanup e ts fs) = None \<and>
   (\<forall>t\<in>set ts. fmlookup (snd (cleanup e ts fs)) (str_of (Path t)) = None) \<and>
   snd (cleanup e ts fs) \<subseteq>\<^sub>f fs"
proof (induction ts arbitrary: fs)
  case Nil
  show ?case by (simp add: fmsubset_refl)
next
  case (Cons t ts)
  from Cons.prems have u: "unlink_fault e (str_of (Path t)) = None"
    and d: "fmlookup fs (str_of (Path t)) \<noteq> Some Directory" by simp_all
  from os_unlink_cases [OF u d] show ?case
  proof
    assume "\<exists>m. os_unlink e (Path t) fs = Inl (FileNotFoundError m)"
    then obtain m where m: "os_unlink e (Path t) fs = Inl (FileNotFoundError m)" ..
    then have gone: "fmlookup fs (str_of (Path t)) = None"
      using u by (auto simp: os_unlink_def split: option.splits node.splits)
    have ih: "fst (cleanup e ts fs) = None \<and>
       (\<forall>t\<in>set ts. fmlookup (snd (cleanup e ts fs)) (str_of (Path t)) = None) \<and>
       snd (cleanup e ts fs) \<subseteq>\<^sub>f fs"
      using Cons.prems by (intro Cons.IH) simp
    then have "fmlookup (snd (cleanup e ts fs)) (str_of (Path t)) = None"
      using gone by (auto intro: fmsubset_lookup_None)
    with ih m show ?thesis by simp
  next
    assume r: "os_unlink e (Path t) fs = Inr (fmdrop (str_of (Path t)) fs)"
    let ?fs = "fmdrop (str_of (Path t)) fs"
    have ih: "fst (cleanup e ts ?fs) = None \<and>
       (\<forall>t\<in>set ts. fmlookup (snd (cleanup e ts ?fs)) (str_of (Path t)) = None) \<and>
       snd (cleanup e ts ?fs) \<subseteq>\<^sub>f ?fs"
      using Cons.prems by (intro Cons.IH) simp
    then have "fmlookup (snd (cleanup e ts ?fs)) (str_of (Path t)) = None"
      by (auto intro: fmsubset_lookup_None [where n = ?fs])
    moreover from ih have "snd (cleanup e ts ?fs) \<subseteq>\<^sub>f fs"
      by (auto intro: fmsubset_trans [where n = ?fs])
    ultimately show ?thesis using ih r by simp
  qed
qed

text \<open>
  C3, amended. In the final cleanup a deletion that fails because the temporary file
  is no longer there (\<open>FileNotFoundError\<close>) is swallowed and the loop goes on; and
  when no deletion fails for another reason, the outcome of the merge is the outcome
  of its conversion and write steps: a normal return, or the exception they raised.
\<close>

theorem cleanup_swallows_not_found:
  "(os_unlink e (Path t) fs0 = Inl (FileNotFoundError m) \<longrightarrow>
      cleanup e (t # ts) fs0 = cleanup e ts fs0) \<and>
   (has_PyPDF2 e \<and> merge_try e paths output_path fs = (r, temp_files, fs1) \<and>
    (\<forall>t\<in>set temp_files. unlink_fault e (str_of (Path t)) = None \<and>
                         fmlookup fs1 (str_of (Path t)) \<noteq> Some Directory) \<longrightarrow>
      fst (merge_into_pdf e paths output_path fs) = r)"
proof (intro conjI impI)
  assume "os_unlink e (Path t) fs0 = Inl (FileNotFoundError m)"
  then show "cleanup e (t # ts) fs0 = cleanup e ts fs0" by simp
next
  assume a: "has_PyPDF2 e \<and> merge_try e paths output_path fs = (r, temp_files, fs1) \<and>
    (\<forall>t\<in>set temp_files. unlink_fault e (str_of (Path t)) = None \<and>
                         fmlookup fs1 (str_of (Path t)) \<noteq> Some Directory)"
  then have "fst (cleanup e temp_files fs1) = None"
    using cleanup_no_fault [of temp_files e fs1] by simp
  then obtain fs2 where "cleanup e temp_files fs1 = (None, fs2)"
    by (cases "cleanup e temp_files fs1") simp
  with a show "fst (merge_into_pdf e paths output_path fs) = r"
    by (simp add: merge_into_pdf_def)
qed

lemma merge_try_b_jpg:
  "merge_try env_ok [''/in/b.jpg''] ''/out/merged.pdf'' fs_in =
     (None, [''/tmp/tmpk3x9.pdf''],
      fmupd ''/out/merged.pdf'' (RegularFile ''J'')
        (fmupd ''/out/merged.pdf'' (RegularFile '''')
          (fmupd ''/tmp/tmpk3x9.pdf'' (RegularFile ''J'')
            (fmupd ''/tmp/tmpk3x9.pdf'' (RegularFile '''') fs_in))))"
  by (simp add: merge_simps path_simps env_ok_def fs_in_def)

lemma merge_b_jpg_facts:
  "has_PyPDF2 env_ok"
  "unlink_fault env_ok q = None"
  "str_of (Path ''/tmp/tmpk3x9.pdf'') = ''/tmp/tmpk3x9.pdf''"
  "os_unlink env_ok (Path ''/tmp/gone.pdf'') fs_tmp =
     Inl (FileNotFoundError ''No such file or directory: /tmp/gone.pdf'')"
  by (simp_all add: env_ok_def os_unlink_def fs_tmp_def fs_in_def path_simps)

theorem cleanup_swallows_not_found_witness:
  "os_unlink env_ok (Path ''/tmp/gone.pdf'') fs_tmp =
     Inl (FileNotFoundError ''No such file or directory: /tmp/gone.pdf'') \<and>
   cleanup env_ok [''/tmp/gone.pdf'', ''/tmp/tmpk3x9.pdf''] fs_tmp =
     cleanup env_ok [''/tmp/tmpk3x9.pdf''] fs_tmp \<and>
   has_PyPDF2 env_ok \<and>
   fst (merge_try env_ok [''/in/b.jpg''] ''/out/merged.pdf'' fs_in) = None \<and>
   fst (merge_into_pdf env_ok [''/in/b.jpg''] ''/out/merged.pdf'' fs_in) = None"
  using
    cleanup_swallows_not_found [where e = env_ok and t = "''/tmp/gone.pdf''" and ?fs0.0 = fs_tmp
      and m = "''No such file or directory: /tmp/gone.pdf''" and ts = "[''/tmp/tmpk3x9.pdf'']"
      and fs = fs_in and paths = "[''/in/b.jpg'']" and output_path = "''/out/merged.pdf''"
      and r = None and temp_files = "[''/tmp/tmpk3x9.pdf'']"
      and ?fs1.0 = "fmupd ''/out/merged.pdf'' (RegularFile ''J'')
        (fmupd ''/out/merged.pdf'' (RegularFile '''')
          (fmupd ''/tmp/tmpk3x9.pdf'' (RegularFile ''J'')
            (fmupd ''/tmp/tmpk3x9.pdf'' (RegularFile '''') fs_in)))"]
  by (simp add: merge_try_b_jpg merge_b_jpg_facts)

lemma merge_try_b_jpg_locked:
  "merge_try env_locked [''/in/b.jpg''] ''/out/merged.pdf'' fs_in =
     (None, [''/tmp/tmpk3x9.pdf''],
      fmupd ''/out/merged.pdf'' (RegularFile ''J'')
        (fmupd ''/out/merged.pdf'' (RegularFile '''')
          (fmupd ''/tmp/tmpk3x9.pdf'' (RegularFile ''J'')
            (fmupd ''/tmp/tmpk3x9.pdf'' (RegularFile '''') fs_in))))"
  by (simp add: merge_simps path_simps env_locked_def env_ok_def fs_in_def)

text \<open>
  C3, for every reason of failure, fails: a deletion that fails for another reason of the operating
  system (here: permission denied) is not caught, and its exception replaces the
  normal return of a merge whose conversions and output succeeded.
\<close>

theorem cleanup_permission_error_counterexample:
  "fst (merge_try env_locked [''/in/b.jpg''] ''/out/merged.pdf'' fs_in) = None \<and>
   fst (merge_into_pdf env_locked [''/in/b.jpg''] ''/out/merged.pdf'' fs_in) =
     Some (OSError ''Permission denied'')"
  by (simp add: merge_into_pdf_def merge_try_b_jpg_locked)
    (simp add: env_locked_def env_ok_def os_unlink_def)

text \<open>
  C2. The specification has it that every temporary PDF created by a merge is gone when it
  returns. The code misses one: when writing the converted image into the temporary
  file fails, the file has been created but its name was never recorded for the
  cleanup, and it stays. Evaluated on a JPG input with no space left for the
  temporary file.
\<close>

theorem merge_leaves_temp_file_on_failed_save:
  "fmlookup fs_in ''/tmp/tmpk3x9.pdf'' = None \<and>
   merge_into_pdf env_full [''/in/b.jpg''] ''/out/merged.pdf'' fs_in =
     (Some (OSError ''No space left on device''),
      fmupd ''/tmp/tmpk3x9.pdf'' (RegularFile '''') fs_in) \<and>
   fmlookup (snd (merge_into_pdf env_full [''/in/b.jpg''] ''/out/merged.pdf'' fs_in))
     ''/tmp/tmpk3x9.pdf'' = Some (RegularFile '''')"
  by (simp add: merge_simps path_simps env_full_def env_ok_def fs_in_def)

section \<open>Where the file list departs from its specification\<close>

text \<open>
  C5. The specification has it that moving a contiguous selection down keeps the order of the
  moved entries and stacks them against the end of the list. In the code an entry at
  the last row is skipped, but the selected entry above it still moves past it: with
  the last two of three entries selected, Move Down swaps them.
\<close>

theorem move_down_at_end_swaps_selection:
  "selected_rows (file_list w_tail) = [1, 2] \<and>
   map data (file_list w_tail) = [''/d/a.pdf'', ''/d/b.tif'', ''/d/c.jpg''] \<and>
   map data (file_list (move_selection 1 w_tail)) = [''/d/a.pdf'', ''/d/c.jpg'', ''/d/b.tif'']"
  by (simp add: w_tail_def move_selection_def selected_rows_def upt_rec take_item_def
      insert_item_def)

text \<open>
  C4. The specification has it that no two entries ever hold the same path. Adding checks this,
  renaming does not: renaming the first of two entries to the name of the second
  (the user confirming the overwrite) leaves two entries with the same path.
\<close>

theorem rename_onto_listed_path_duplicates:
  "map data (file_list (add_path_batch fs_docs [''/d/a.pdf'', ''/d/b.pdf''] w_empty)) =
     [''/d/a.pdf'', ''/d/b.pdf''] \<and>
   fst (rename_item_inline env_ok (''b.pdf'', True) True 0
         (add_path_batch fs_docs [''/d/a.pdf'', ''/d/b.pdf''] w_empty, fs_docs)) = Renamed \<and>
   map data (file_list (fst (snd (rename_item_inline env_ok (''b.pdf'', True) True 0
         (add_path_batch fs_docs [''/d/a.pdf'', ''/d/b.pdf''] w_empty, fs_docs))))) =
     [''/d/b.pdf'', ''/d/b.pdf'']"
  by (simp add: add_path_batch_def new_item_def rename_item_inline_def rename_item_def
      os_rename_def strip_plain_names w_empty_def fs_docs_def env_ok_def path_simps Let_def)

section \<open>What the other operations of the file list keep\<close>

text \<open>
  Adding, removing and moving keep the stored paths pairwise different; of the
  operations of the file list only renaming can break this.
\<close>

lemma distinct_first_occurrences: "distinct (first_occurrences xs)"
  by (simp add: first_occurrences_def)

lemma map_data_new_item: "map data (map new_item ps) = ps"
  by (induction ps) (simp_all add: new_item_def)

lemma add_path_batch_keeps_distinct:
  "distinct (map data (file_list w)) \<Longrightarrow>
   distinct (map data (file_list (add_path_batch fs paths w)))"
proof -
  assume d: "distinct (map data (file_list w))"
  have f: "file_list (add_path_batch fs paths w) =
      file_list w @ map new_item (accepted fs (file_list w) paths)"
    by (simp add: add_path_batch_def add_loop_accepted accepted_Nil)
  have "distinct (accepted fs (file_list w) paths)"
    by (simp add: accepted_def distinct_first_occurrences)
  moreover have "set (map data (file_list w)) \<inter> set (accepted fs (file_list w) paths) = {}"
    by (auto simp: accepted_def)
  moreover have "map data (file_list (add_path_batch fs paths w)) =
      map data (file_list w) @ accepted fs (file_list w) paths"
    by (simp only: f map_append map_data_new_item)
  ultimately show ?thesis using d by simp
qed

lemma remove_selected_keeps_distinct:
  "distinct (map data (file_list w)) \<Longrightarrow>
   distinct (map data (file_list (remove_selected w)))"
  by (simp add: remove_selected_def distinct_map_filter)

lemma take_item_parts:
  "row < length its \<Longrightarrow> its = take row its @ its ! row # drop (Suc row) its"
  by (rule id_take_nth_drop)

lemma move_step_length:
  "row < length its \<Longrightarrow> length (insert_item t x (take_item row its)) = length its"
  by (auto simp: insert_item_def take_item_def)

lemma set_insert_item: "set (insert_item t x ys) = insert x (set ys)"
proof -
  have "set (take t ys) \<union> set (drop t ys) = set ys"
    by (metis append_take_drop_id set_append)
  then show ?thesis by (auto simp: insert_item_def)
qed

lemma move_step_data:
  assumes "row < length its"
  shows "data ` set (insert_item t ((its ! row)\<lparr>selected := True\<rparr>) (take_item row its))
       = data ` set its"
proof -
  have "set its = insert (its ! row) (set (take_item row its))"
    using take_item_parts [OF assms]
    by (metis Un_insert_right list.simps(15) set_append take_item_def)
  then show ?thesis by (simp add: set_insert_item)
qed

lemma move_loop_preserves:
  "\<forall>row\<in>set rows. row < length its \<Longrightarrow>
   length (move_loop offset rows its) = length its \<and>
   data ` set (move_loop offset rows its) = data ` set its"
proof (induction rows arbitrary: its)
  case Nil
  show ?case by simp
next
  case (Cons row rows)
  then have r: "row < length its" by simp
  let ?its = "insert_item (nat (int row + offset)) ((its ! row)\<lparr>selected := True\<rparr>)
                (take_item row its)"
  have l: "length ?its = length its" by (rule move_step_length [OF r])
  have "\<forall>row\<in>set rows. row < length ?its" using Cons.prems l by simp
  from Cons.IH [OF this] l move_step_data [OF r]
  have "length (move_loop offset rows ?its) = length its \<and>
        data ` set (move_loop offset rows ?its) = data ` set its" by simp
  moreover have "length (move_loop offset rows its) = length its \<and>
        data ` set (move_loop offset rows its) = data ` set its"
    using Cons.prems by (intro Cons.IH) simp
  ultimately show ?case by (simp add: Let_def)
qed

lemma distinct_data_iff: "distinct (map data its) \<longleftrightarrow> card (data ` set its) = length its"
  using distinct_card [of "map data its"] card_distinct [of "map data its"] by auto

lemma selected_rows_bound: "\<forall>row\<in>set (selected_rows its). row < length its"
  by (simp add: selected_rows_def)

lemma move_selection_keeps_distinct:
  "distinct (map data (file_list w)) \<Longrightarrow>
   distinct (map data (file_list (move_selection offset w)))"
proof -
  assume d: "distinct (map data (file_list w))"
  let ?rows = "if offset < 0 then selected_rows (file_list w) else rev (selected_rows (file_list w))"
  have "\<forall>row\<in>set ?rows. row < length (file_list w)"
    using selected_rows_bound [of "file_list w"] by simp
  from move_loop_preserves [OF this, of offset] d
  have "distinct (map data (move_loop offset ?rows (file_list w)))"
    by (simp add: distinct_data_iff)
  with d show ?thesis by (simp add: move_selection_def Let_def)
qed

text \<open>
  Moving down a contiguous selection that ends before the last row shifts the block
  by one row and keeps its order: the entry below the block comes to stand above it.
\<close>

lemma move_loop_step:
  "0 \<le> int row + offset \<Longrightarrow> int row + offset < int (length its) \<Longrightarrow>
   move_loop offset (row # rows) its =
     move_loop offset rows
       (insert_item (nat (int row + offset)) ((its ! row)\<lparr>selected := True\<rparr>)
          (take_item row its))"
  by (simp add: Let_def)

lemma move_loop_down_block:
  "move_loop 1 (rev [length pre..<length pre + length blk]) (pre @ blk @ y # post) =
     pre @ y # map (\<lambda>it. it\<lparr>selected := True\<rparr>) blk @ post"
proof (induction blk arbitrary: post rule: rev_induct)
  case Nil
  show ?case by simp
next
  case (snoc b bs)
  let ?row = "length pre + length bs"
  let ?its = "pre @ (bs @ [b]) @ y # post"
  have its: "?its = (pre @ bs) @ b # y # post" by simp
  have n: "?its ! ?row = b"
    unfolding its by (metis length_append nth_append_length)
  have t: "take_item ?row ?its = (pre @ bs) @ y # post"
    unfolding its take_item_def by simp
  have i: "insert_item (Suc ?row) (b\<lparr>selected := True\<rparr>) ((pre @ bs) @ y # post) =
      pre @ bs @ y # (b\<lparr>selected := True\<rparr>) # post"
    unfolding insert_item_def by simp
  have rows: "rev [length pre..<length pre + length (bs @ [b])] =
      ?row # rev [length pre..<length pre + length bs]" by simp
  have tg: "nat (int ?row + 1) = Suc ?row" by simp
  have "move_loop 1 (?row # rev [length pre..<length pre + length bs]) ?its =
      move_loop 1 (rev [length pre..<length pre + length bs])
        (insert_item (nat (int ?row + 1)) ((?its ! ?row)\<lparr>selected := True\<rparr>)
           (take_item ?row ?its))"
    by (rule move_loop_step) simp_all
  then have "move_loop 1 (rev [length pre..<length pre + length (bs @ [b])]) ?its =
      move_loop 1 (rev [length pre..<length pre + length bs])
        (pre @ bs @ y # (b\<lparr>selected := True\<rparr>) # post)"
    by (simp only: rows n t i tg)
  then show ?case using snoc.IH [of "(b\<lparr>selected := True\<rparr>) # post"] by simp
qed

lemma block_parts:
  assumes "i \<le> j" and "j < length its"
  shows "its = take i its @ take (j - i) (drop i its) @ its ! j # drop (Suc j) its"
proof -
  have "take j its = take i (take j its) @ drop i (take j its)"
    by (rule append_take_drop_id [symmetric])
  also have "\<dots> = take i its @ take (j - i) (drop i its)"
    using assms(1) by (simp add: drop_take min_absorb1)
  finally have "take j its = take i its @ take (j - i) (drop i its)" .
  with id_take_nth_drop [OF assms(2)] show ?thesis by simp
qed

lemma move_down_block_inside:
  assumes "selected_rows (file_list w) = [i..<j]" and "i < j" and "j < length (file_list w)"
  shows "file_list (move_selection 1 w) =
     take i (file_list w) @ file_list w ! j #
     map (\<lambda>it. it\<lparr>selected := True\<rparr>) (take (j - i) (drop i (file_list w))) @
     drop (Suc j) (file_list w)"
proof -
  let ?its = "file_list w"
  let ?pre = "take i ?its" and ?blk = "take (j - i) (drop i ?its)"
  have lp: "length ?pre = i" and lb: "length ?blk = j - i"
    using assms(2,3) by simp_all
  have parts: "?its = ?pre @ ?blk @ ?its ! j # drop (Suc j) ?its"
    using assms(2,3) by (intro block_parts) simp_all
  have "move_loop 1 (rev [i..<j]) ?its =
      move_loop 1 (rev [length ?pre..<length ?pre + length ?blk])
        (?pre @ ?blk @ ?its ! j # drop (Suc j) ?its)"
    using parts lp lb assms(2) by simp
  also have "\<dots> = ?pre @ ?its ! j # map (\<lambda>it. it\<lparr>selected := True\<rparr>) ?blk @ drop (Suc j) ?its"
    by (rule move_loop_down_block)
  finally show ?thesis
    using assms(1,2) by (simp add: move_selection_def)
qed

end
